theory Spec2Isabelle
  imports Complex_Main "HOL-Library.Word" "HOL-Library.Sublist" "HOL-Library.Product_Lexorder"
begin

section \<open>JavaScript values used by the front-end helpers\<close>

text \<open>
  A JavaScript string is a sequence of UTF-16 code units. String literals of the
  source are ASCII and are written \<open>js ''...''\<close>.
\<close>

type_synonym code_unit = "16 word"
type_synonym js_string = "code_unit list"

definition js :: "string \<Rightarrow> js_string" where
  "js s = map (\<lambda>c. of_nat (of_char c)) s"

text \<open>\<open>String.prototype.includes\<close> with a string argument: the pattern occurs at some index.\<close>

fun str_includes :: "js_string \<Rightarrow> js_string \<Rightarrow> bool" where
  "str_includes [] pat = (pat = [])"
| "str_includes (c # cs) pat = (prefix pat (c # cs) \<or> str_includes cs pat)"

text \<open>\<open>String.prototype.startsWith\<close>.\<close>

definition startsWith :: "js_string \<Rightarrow> js_string \<Rightarrow> bool" where
  "startsWith s pat = prefix pat s"

text \<open>
  \<open>String.prototype.slice(start, end)\<close> with integer arguments: a negative index counts
  from the end, both indices are clamped to the string, and the result is empty when
  the start is not before the end. \<open>slice_from\<close> is the call with the end omitted.
\<close>

definition slice_index :: "nat \<Rightarrow> int \<Rightarrow> nat" where
  "slice_index len i = (if i < 0 then nat (max (int len + i) 0) else min (nat i) len)"

definition slice :: "js_string \<Rightarrow> int \<Rightarrow> int \<Rightarrow> js_string" where
  "slice s start stop =
     (let i = slice_index (length s) start; j = slice_index (length s) stop
      in take (j - i) (drop i s))"

definition slice_from :: "js_string \<Rightarrow> int \<Rightarrow> js_string" where
  "slice_from s start = drop (slice_index (length s) start) s"

text \<open>
  A JavaScript number is NaN, an infinity, or a finite double, kept by its exact rational
  value (the two zeros are one value here: no operation below tells them apart).
  Comparison follows IEEE 754: any comparison with NaN is false.
\<close>

datatype js_number = NaN | PosInfinity | NegInfinity | Finite rat

fun number_ge :: "js_number \<Rightarrow> js_number \<Rightarrow> bool" where
  "number_ge NaN _ = False"
| "number_ge _ NaN = False"
| "number_ge PosInfinity _ = True"
| "number_ge _ NegInfinity = True"
| "number_ge NegInfinity _ = False"
| "number_ge _ PosInfinity = False"
| "number_ge (Finite x) (Finite y) = (y \<le> x)"

section \<open>formatNumber (DexscreenerDisplay)\<close>

text \<open>
  \<open>Number.prototype.toFixed(fractionDigits)\<close> as ECMAScript defines it (the range check
  of the digit count passes for the 2 of the source). A value that is not finite is
  rendered by its name. Otherwise the sign is split off and, below \<open>10^21\<close>, the value is
  rounded to the nearest multiple of \<open>10^-f\<close> (the larger one of two), written in decimal
  digits, padded with zeros to more than \<open>f\<close> digits and split by the point. From \<open>10^21\<close>
  on the result is that of \<open>Number::toString\<close>, which is a parameter here.
\<close>

definition digit_char :: "nat \<Rightarrow> code_unit" where
  "digit_char d = 0x0030 + of_nat d"

fun digits :: "nat \<Rightarrow> js_string" where
  "digits n = (if n < 10 then [digit_char n] else digits (n div 10) @ [digit_char (n mod 10)])"

declare digits.simps [simp del]

definition toFixed :: "(rat \<Rightarrow> js_string) \<Rightarrow> js_number \<Rightarrow> nat \<Rightarrow> js_string" where
  "toFixed toString_large x f =
     (case x of
        NaN \<Rightarrow> js ''NaN''
      | PosInfinity \<Rightarrow> js ''Infinity''
      | NegInfinity \<Rightarrow> js ''-Infinity''
      | Finite v \<Rightarrow>
          (let s = (if v < 0 then js ''-'' else []);
               a = \<bar>v\<bar>
           in if 10 ^ 21 \<le> a then s @ toString_large a
              else
                (let n = nat \<lfloor>a * 10 ^ f + 1 / 2\<rfloor>;
                     m0 = digits n;
                     m = (if f \<noteq> 0 \<and> length m0 \<le> f
                          then replicate (f + 1 - length m0) 0x0030 @ m0 else m0);
                     k = length m
                 in s @ (if f \<noteq> 0 then take (k - f) m @ js ''.'' @ drop (k - f) m else m))))"

text \<open>
  The division of a number by a positive finite constant: NaN and the infinities are
  kept, and the exact quotient of a finite number is rounded to a double by the runtime
  (\<open>to_double\<close>, a parameter).
\<close>

definition number_div :: "(rat \<Rightarrow> js_number) \<Rightarrow> js_number \<Rightarrow> rat \<Rightarrow> js_number" where
  "number_div to_double num c =
     (case num of
        NaN \<Rightarrow> NaN
      | PosInfinity \<Rightarrow> PosInfinity
      | NegInfinity \<Rightarrow> NegInfinity
      | Finite x \<Rightarrow> to_double (x / c))"

definition formatNumber ::
  "(rat \<Rightarrow> js_number) \<Rightarrow> (rat \<Rightarrow> js_string) \<Rightarrow> js_number \<Rightarrow> js_string" where
  "formatNumber to_double toString_large num =
     (if number_ge num (Finite 1000000000) then
        js ''$'' @ toFixed toString_large (number_div to_double num 1000000000) 2 @ js ''B''
      else if number_ge num (Finite 1000000) then
        js ''$'' @ toFixed toString_large (number_div to_double num 1000000) 2 @ js ''M''
      else if number_ge num (Finite 1000) then
        js ''$'' @ toFixed toString_large (number_div to_double num 1000) 2 @ js ''K''
      else js ''$'' @ toFixed toString_large num 2)"

text \<open>
  A rendering to two decimals: an optional minus sign, one or more digits, the point and
  exactly two digits.
\<close>

definition is_digit :: "code_unit \<Rightarrow> bool" where
  "is_digit c = (0x0030 \<le> c \<and> c \<le> 0x0039)"

definition two_decimals :: "js_string \<Rightarrow> bool" where
  "two_decimals s =
     (case rev (case s of [] \<Rightarrow> [] | c # cs \<Rightarrow> if c = 0x002D then cs else s) of
        d2 # d1 # p # whole \<Rightarrow>
          is_digit d2 \<and> is_digit d1 \<and> p = 0x002E \<and> whole \<noteq> [] \<and> list_all is_digit whole
      | _ \<Rightarrow> False)"

section \<open>formatError (PipelineStepContainer)\<close>

text \<open>
  The values \<open>JSON.parse\<close> produces. An object is the list of its own properties
  (\<open>JSON.parse\<close> keeps one value per key).
\<close>

datatype json =
    JNull
  | JBool bool
  | JNumber js_number
  | JString js_string
  | JArray "json list"
  | JObject "(js_string \<times> json) list"

datatype js_exception = SyntaxError | TypeError

text \<open>
  \<open>value?.error\<close>: \<open>None\<close> is \<open>undefined\<close>. Only an object can own a property called
  \<open>error\<close>; \<open>null?.error\<close> is \<open>undefined\<close> by the optional chaining, and numbers, strings,
  booleans and arrays have no such property.
\<close>

fun get_error :: "json \<Rightarrow> json option" where
  "get_error (JObject props) = map_of props (js ''error'')"
| "get_error _ = None"

text \<open>JavaScript truthiness of a parsed value: \<open>null\<close>, \<open>false\<close>, zero, NaN and the empty
  string are falsy.\<close>

fun truthy :: "json \<Rightarrow> bool" where
  "truthy JNull = False"
| "truthy (JBool b) = b"
| "truthy (JNumber n) = (n \<noteq> Finite 0 \<and> n \<noteq> NaN)"
| "truthy (JString s) = (s \<noteq> [])"
| "truthy (JArray _) = True"
| "truthy (JObject _) = True"

text \<open>
  The regular expression \<open>/{.*}/\<close> (no flags). The dot matches any code unit but a line
  terminator. \<open>dot_star_rbrace\<close> is the backtracking match of \<open>.*}\<close> at the head of its
  argument: the star first takes one more code unit, and gives it back for the closing
  brace when the rest fails. \<open>regex_match\<close> is \<open>error.match(/{.*}/)\<close> read at index 0
  (\<open>match[0]\<close>): the match at the leftmost index where one exists, \<open>None\<close> for \<open>null\<close>.
\<close>

definition line_terminator :: "code_unit \<Rightarrow> bool" where
  "line_terminator c = (c = 0x000A \<or> c = 0x000D \<or> c = 0x2028 \<or> c = 0x2029)"

definition lbrace :: code_unit where "lbrace = 0x007B"
definition rbrace :: code_unit where "rbrace = 0x007D"

fun dot_star_rbrace :: "js_string \<Rightarrow> js_string option" where
  "dot_star_rbrace [] = None"
| "dot_star_rbrace (c # cs) =
     (case (if line_terminator c then None else dot_star_rbrace cs) of
        Some m \<Rightarrow> Some (c # m)
      | None \<Rightarrow> if c = rbrace then Some [c] else None)"

fun regex_match :: "js_string \<Rightarrow> js_string option" where
  "regex_match [] = None"
| "regex_match (c # cs) =
     (case (if c = lbrace then dot_star_rbrace cs else None) of
        Some m \<Rightarrow> Some (c # m)
      | None \<Rightarrow> regex_match cs)"

text \<open>
  \<open>JSON.parse\<close> and \<open>JSON.stringify\<close> belong to the runtime and are parameters; each
  either throws (\<open>Inl\<close>) or returns. \<open>formatError_try\<close> is the body of the \<open>try\<close> block,
  \<open>formatError\<close> the function with its \<open>catch\<close>.
\<close>

definition formatError_try ::
  "(js_string \<Rightarrow> js_exception + json) \<Rightarrow> (json \<Rightarrow> js_exception + js_string)
     \<Rightarrow> js_string \<Rightarrow> js_exception + js_string" where
  "formatError_try parse stringify error =
     (case regex_match error of
        None \<Rightarrow> Inr error
      | Some m \<Rightarrow>
          (case parse m of
             Inl exn \<Rightarrow> Inl exn
           | Inr parsedError \<Rightarrow>
               (case get_error parsedError of
                  None \<Rightarrow> Inr error
                | Some e \<Rightarrow> if truthy e then stringify e else Inr error)))"

definition formatError ::
  "(js_string \<Rightarrow> js_exception + json) \<Rightarrow> (json \<Rightarrow> js_exception + js_string)
     \<Rightarrow> js_string \<Rightarrow> js_exception + js_string" where
  "formatError parse stringify error =
     (if str_includes error (js ''insufficient funds'') then Inr (js ''Insufficient balance'')
      else if str_includes error (js ''0x1771'') then Inr (js ''Slippage tolerance exceeded'')
      else (case formatError_try parse stringify error of
              Inl exn \<Rightarrow> Inr error
            | Inr result \<Rightarrow> Inr result))"

section \<open>renderStatus and TransactionLink (PipelineStepContainer)\<close>

text \<open>
  What a component returns: an element with its tag, its properties and its children,
  an icon of react-icons with its \<open>size\<close>, a string, or one of the values React renders
  as nothing (\<open>undefined\<close>, \<open>null\<close>).
\<close>

datatype icon = FaBan | FaCheckCircle | FaExternalLinkAlt | FaSpinner | FaTimesCircle

datatype jsx =
    Element string "(string \<times> js_string) list" "jsx list"
  | Icon icon "nat option"
  | Text js_string
  | Undefined
  | Null

fun renderStatus :: "js_string \<Rightarrow> jsx" where
  "renderStatus status =
     (if status = js ''Pending'' then
        Element ''span'' [(''className'', js ''text-yellow-300 flex items-center gap-1'')]
          [Icon FaSpinner None, Text (js '' Pending'')]
      else if status = js ''Completed'' then
        Element ''span'' [(''className'', js ''text-green-300 flex items-center gap-1'')]
          [Icon FaCheckCircle None, Text (js '' Completed'')]
      else if status = js ''Failed'' then
        Element ''span'' [(''className'', js ''text-red-300 flex items-center gap-1'')]
          [Icon FaTimesCircle None, Text (js '' Failed:'')]
      else if status = js ''Cancelled'' then
        Element ''span'' [(''className'', js ''text-gray-300 flex items-center gap-1'')]
          [Icon FaBan None, Text (js '' Cancelled'')]
      else Undefined)"

text \<open>
  \<open>transactionHash && (...)\<close> and \<open>error && (...)\<close>: the left operand itself when it is
  falsy (\<open>null\<close>, or the empty string), the element otherwise. A \<open>string | null\<close> is a
  \<open>js_string option\<close>.
\<close>

definition and_then :: "js_string option \<Rightarrow> (js_string \<Rightarrow> jsx) \<Rightarrow> jsx" where
  "and_then v f = (case v of None \<Rightarrow> Null | Some s \<Rightarrow> if s = [] then Text [] else f s)"

definition tx_href :: "js_string \<Rightarrow> js_string" where
  "tx_href transactionHash =
     (if startsWith transactionHash (js ''0x'')
      then js ''https://blockscan.com/tx/'' @ transactionHash
      else js ''https://solscan.io/tx/'' @ transactionHash)"

text \<open>An exception of \<open>formatError(error)\<close> would leave the component (\<open>Inl\<close>).\<close>

definition TransactionLink ::
  "(js_string \<Rightarrow> js_exception + json) \<Rightarrow> (json \<Rightarrow> js_exception + js_string)
     \<Rightarrow> js_string \<Rightarrow> js_string option \<Rightarrow> js_string option \<Rightarrow> js_exception + jsx" where
  "TransactionLink parse stringify status transactionHash error =
     (case (case error of
              None \<Rightarrow> Inr Null
            | Some e \<Rightarrow>
                if e = [] then Inr (Text [])
                else (case formatError parse stringify e of
                        Inl exn \<Rightarrow> Inl exn
                      | Inr msg \<Rightarrow>
                          Inr (Element ''span''
                                 [(''className'', js ''text-red-300 break-all overflow-hidden'')]
                                 [Text msg]))) of
        Inl exn \<Rightarrow> Inl exn
      | Inr error_child \<Rightarrow>
          Inr (Element ''div''
                 [(''className'',
                   js ''text-xs sm:text-sm text-gray-400 flex flex-wrap items-center gap-2 mt-2'')]
                 [renderStatus status,
                  Text (js '' ''),
                  and_then transactionHash (\<lambda>h.
                    Element ''span'' [(''className'', js ''flex items-center gap-1 inline-flex'')]
                      [Element ''a''
                         [(''href'', tx_href h),
                          (''target'', js ''_blank''),
                          (''rel'', js ''noopener noreferrer''),
                          (''className'',
                           js ''text-blue-400 hover:text-blue-300 inline-flex items-center gap-1'')]
                         [Text (slice h 0 6), Text (js ''...''), Text (slice_from h (-4)),
                          Icon FaExternalLinkAlt (Some 10)]]),
                  error_child]))"

section \<open>The listen-data manifest (Cargo.toml)\<close>















section \<open>The ingestion-decode-sink pipeline\<close>

text \<open>
  The Rust sources behind the manifest's targets (\<open>src/main.rs\<close>, \<open>src/bin/indexer.rs\<close>,
  \<open>src/bin/rpc_crawler.rs\<close> and their modules) are not available; only the manifest is.
  The definitions of this section follow the data model and the component contracts of
  the design document.
\<close>

text \<open>
  Modelled from the spec: the position \<open>(slot, write_version)\<close> of an update, ordered
  lexicographically (the slot first, the write version as the tiebreaker within a slot).
\<close>

type_synonym position = "nat \<times> nat"

text \<open>Modelled from the spec: RawAccountUpdate, the data source adapter's output
  (the adapter itself is missing).\<close>

record raw_account_update =
  owning_program_id :: string
  account_address :: string
  slot :: nat
  write_version :: nat
  lamports :: nat
  raw_bytes :: "8 word list"
  is_startup :: bool

text \<open>Modelled from the spec: RawTransactionUpdate, the adapter's other output (the adapter
  is missing): the signature, the slot, the instruction invocations in order, each with
  its program id and raw instruction data, the execution logs and the success flag.\<close>

record raw_transaction_update =
  tx_signature :: string
  tx_slot :: nat
  tx_instructions :: "(string \<times> 8 word list) list"
  tx_logs :: "string list"
  tx_success :: bool

text \<open>Modelled from the spec: a raw update of the adapter's stream (the adapter is missing),
  \<open>RawAccountUpdate | RawTransactionUpdate\<close>.\<close>

datatype raw_update =
  AccountUpdate raw_account_update
| TransactionUpdate raw_transaction_update

text \<open>Modelled from the spec: the enumerated kind of a DecodedEvent.\<close>

datatype event_kind = Initialize | Swap | AddLiquidity | RemoveLiquidity | Other

text \<open>Modelled from the spec: DecodeError, the two ways a decoder (missing) rejects a payload.\<close>

datatype decode_error = Unrecognized | Malformed

text \<open>Modelled from the spec: DecodedEvent. \<open>ev_seq\<close> is the write version of an
  account-derived event and the instruction index of a transaction-derived one.\<close>

record decoded_event =
  protocol_tag :: string
  kind :: event_kind
  entity_key :: string
  amounts :: "int list"
  ev_slot :: nat
  ev_seq :: nat
  source_signature :: "string option"

text \<open>Modelled from the spec: the decoder contract
  \<open>decode(raw_update) -> Result<DecodedEvent, DecodeError>\<close>; the decoders are missing and
  the pipeline takes \<open>decode\<close> as a parameter.\<close>

type_synonym decoder = "raw_update \<Rightarrow> decode_error + decoded_event"

text \<open>Modelled from the spec: the two shapes of an idempotency key (entity key, slot and
  write version, or signature and instruction index).\<close>

datatype idempotency_key = AccountKey string nat nat | TransactionKey string nat

text \<open>Modelled from the spec: the idempotency key an event carries; an event derived from
  an account has no signature.\<close>

definition idempotency_key_of :: "decoded_event \<Rightarrow> idempotency_key" where
  "idempotency_key_of ev =
     (case source_signature ev of
        None \<Rightarrow> AccountKey (entity_key ev) (ev_slot ev) (ev_seq ev)
      | Some signature \<Rightarrow> TransactionKey signature (ev_seq ev))"

text \<open>Modelled from the spec: the position an event carries, its slot and its write
  version or instruction index (the decoders that fill them in are missing).\<close>

definition position_of :: "decoded_event \<Rightarrow> position" where
  "position_of ev = (ev_slot ev, ev_seq ev)"

text \<open>Modelled from the spec: CacheEntry, the latest state of an entity.\<close>

record cache_entry =
  latest_state_snapshot :: decoded_event
  updated_at_slot :: nat

text \<open>
  Modelled from the spec: the state of the pipeline (the dispatcher and the sink are
  missing). \<open>last_applied\<close> is the dispatcher's position per entity key, held in memory;
  \<open>store\<close> is the durable store, one row per idempotency key; \<open>cache\<close> and
  \<open>checkpoint\<close> are the sink's. The checkpoint is the pair
  \<open>(last_committed_slot, last_committed_write_version)\<close>.
\<close>

record pipeline =
  last_applied :: "string \<rightharpoonup> position"
  store :: "(idempotency_key \<times> decoded_event) list"
  cache :: "string \<rightharpoonup> cache_entry"
  checkpoint :: position

text \<open>Modelled from the spec: the pipeline before its first update, with nothing applied,
  stored or cached and the checkpoint at the start of the ledger.\<close>

definition initial :: pipeline where
  "initial =
     \<lparr>last_applied = Map.empty, store = [], cache = Map.empty, checkpoint = (0, 0)\<rparr>"

text \<open>
  Modelled from the spec: the ordering invariant of the dispatcher (missing). Within one
  entity key an event is applied only when its position is strictly greater than the last
  one applied for that key; the first event of a key is applied.
\<close>

definition fresh :: "pipeline \<Rightarrow> decoded_event \<Rightarrow> bool" where
  "fresh st ev =
     (case last_applied st (entity_key ev) of
        None \<Rightarrow> True
      | Some p \<Rightarrow> p < position_of ev)"

text \<open>
  Modelled from the spec: one raw update through the dispatcher and its decoder (both
  missing): the new state and the events emitted. The data model gives a raw update no
  entity key, so the key and the position of an update are those of the event it decodes
  to. A decode error skips the update. A late or duplicate update is discarded: nothing
  is emitted and nothing changes; the decoder is pure, so that its event was computed
  leaves no trace.
\<close>

definition ingest :: "decoder \<Rightarrow> pipeline \<Rightarrow> raw_update \<Rightarrow> pipeline \<times> decoded_event list" where
  "ingest decode st u =
     (case decode u of
        Inl err \<Rightarrow> (st, [])
      | Inr ev \<Rightarrow>
          if fresh st ev
          then (st\<lparr>last_applied := (last_applied st)(entity_key ev \<mapsto> position_of ev)\<rparr>, [ev])
          else (st, []))"

text \<open>Modelled from the spec: the raw updates of a stream in arrival order, one worker
  lane (the dispatcher is missing).\<close>

fun ingest_all :: "decoder \<Rightarrow> pipeline \<Rightarrow> raw_update list \<Rightarrow> pipeline \<times> decoded_event list" where
  "ingest_all decode st [] = (st, [])"
| "ingest_all decode st (u # us) =
     (case ingest decode st u of
        (st1, emitted) \<Rightarrow>
          (case ingest_all decode st1 us of (st2, later) \<Rightarrow> (st2, emitted @ later)))"

text \<open>
  Modelled from the spec: step 1 of the sink (missing), the upsert of a row under its
  idempotency key with insert-or-replace semantics.
\<close>

fun upsert ::
  "idempotency_key \<times> decoded_event \<Rightarrow> (idempotency_key \<times> decoded_event) list
     \<Rightarrow> (idempotency_key \<times> decoded_event) list" where
  "upsert row [] = [row]"
| "upsert row (r # rows) = (if fst r = fst row then row # rows else r # upsert row rows)"

text \<open>Modelled from the spec: an event submitted to the durable store by the sink
  (missing), as the row under its idempotency key.\<close>

definition submit ::
  "decoded_event \<Rightarrow> (idempotency_key \<times> decoded_event) list
     \<Rightarrow> (idempotency_key \<times> decoded_event) list" where
  "submit ev rows = upsert (idempotency_key_of ev, ev) rows"

text \<open>Modelled from the spec: the bulk write of a batch by the sink (missing), event by
  event in the batch's order.\<close>

definition write_batch ::
  "(idempotency_key \<times> decoded_event) list \<Rightarrow> decoded_event list
     \<Rightarrow> (idempotency_key \<times> decoded_event) list" where
  "write_batch rows batch = fold submit batch rows"

text \<open>Modelled from the spec: step 2 of the sink (missing), the cache entry of each affected
  entity key overwritten in place by the latest decoded state.\<close>

definition update_cache ::
  "(string \<rightharpoonup> cache_entry) \<Rightarrow> decoded_event list \<Rightarrow> (string \<rightharpoonup> cache_entry)" where
  "update_cache c batch =
     fold (\<lambda>ev m. m(entity_key ev \<mapsto> \<lparr>latest_state_snapshot = ev, updated_at_slot = ev_slot ev\<rparr>))
       batch c"

text \<open>Modelled from the spec: step 3 of the sink (missing), the checkpoint advanced to the
  maximum position committed in the batch; the checkpoint is monotonic, so it stays where
  it is when the batch holds nothing above it.\<close>

definition advance :: "position \<Rightarrow> decoded_event list \<Rightarrow> position" where
  "advance cp batch = fold (\<lambda>ev p. max p (position_of ev)) batch cp"

text \<open>
  Modelled from the spec: the commit of a batch by the sink (missing) when its writes
  succeed: the upsert of the durable store, the update of the cache and the advance of
  the checkpoint. The sink's handling of a failed write (retry, dead-letter record, stall)
  is not modelled.
\<close>

definition commit :: "pipeline \<Rightarrow> decoded_event list \<Rightarrow> pipeline" where
  "commit st batch =
     st\<lparr>store := write_batch (store st) batch,
        cache := update_cache (cache st) batch,
        checkpoint := advance (checkpoint st) batch\<rparr>"

text \<open>
  Modelled from the spec: one batch through the pipeline (dispatcher, decoders and sink are
  missing): the raw updates are ingested in arrival order and the events emitted for them
  are committed as one batch. Where the stream is cut into batches (the count threshold
  and the maximum wait) is the caller's choice of \<open>raws\<close>.
\<close>

definition process_batch :: "decoder \<Rightarrow> pipeline \<Rightarrow> raw_update list \<Rightarrow> pipeline" where
  "process_batch decode st raws =
     (case ingest_all decode st raws of (st1, events) \<Rightarrow> commit st1 events)"

section \<open>Facts about the string helpers and the regular expression\<close>

lemma js_Cons: "js (c # s) = of_nat (of_char c) # js s"
  by (simp add: js_def)

lemma js_Nil: "js [] = []"
  by (simp add: js_def)

lemma str_includes_iff: "str_includes s pat \<longleftrightarrow> (\<exists>pre post. s = pre @ pat @ post)"
proof (induction s)
  case Nil
  then show ?case by auto
next
  case (Cons c cs)
  show ?case
  proof
    assume "str_includes (c # cs) pat"
    then consider "prefix pat (c # cs)" | "str_includes cs pat" by auto
    then show "\<exists>pre post. c # cs = pre @ pat @ post"
    proof cases
      case 1
      then obtain post where "c # cs = pat @ post" by (auto simp: prefix_def)
      then have "c # cs = [] @ pat @ post" by simp
      then show ?thesis by blast
    next
      case 2
      then obtain pre post where "cs = pre @ pat @ post" using Cons.IH by blast
      then have "c # cs = (c # pre) @ pat @ post" by simp
      then show ?thesis by blast
    qed
  next
    assume "\<exists>pre post. c # cs = pre @ pat @ post"
    then obtain pre post where eq: "c # cs = pre @ pat @ post" by blast
    show "str_includes (c # cs) pat"
    proof (cases pre)
      case Nil
      then have "prefix pat (c # cs)" using eq by (simp add: prefix_def)
      then show ?thesis by simp
    next
      case (Cons p ps)
      then have "cs = ps @ pat @ post" using eq by simp
      then show ?thesis using Cons.IH by auto
    qed
  qed
qed

lemma rbrace_not_terminator: "\<not> line_terminator rbrace"
  by (simp add: line_terminator_def rbrace_def)

lemma lbrace_not_terminator: "\<not> line_terminator lbrace"
  by (simp add: line_terminator_def lbrace_def)

text \<open>The star stops at the first line terminator; within that line it gives back as little as it must.\<close>

lemma dot_star_rbrace_None:
  "dot_star_rbrace s = None \<longleftrightarrow> rbrace \<notin> set (takeWhile (\<lambda>c. \<not> line_terminator c) s)"
  by (induction s) (auto simp: rbrace_not_terminator split: option.splits)

lemma dot_star_rbrace_Some:
  "dot_star_rbrace s = Some m \<Longrightarrow>
     \<exists>body post. m = body @ [rbrace] \<and> s = m @ post \<and> (\<forall>c \<in> set body. \<not> line_terminator c) \<and>
       rbrace \<notin> set (takeWhile (\<lambda>c. \<not> line_terminator c) post)"
proof (induction s arbitrary: m)
  case Nil
  then show ?case by simp
next
  case (Cons c cs)
  show ?case
  proof (cases "line_terminator c")
    case True
    then show ?thesis using Cons.prems by (auto simp: rbrace_not_terminator split: if_splits)
  next
    case False
    show ?thesis
    proof (cases "dot_star_rbrace cs")
      case None
      then have m: "m = [c]" "c = rbrace" using Cons.prems False by (auto split: if_splits)
      have "rbrace \<notin> set (takeWhile (\<lambda>c. \<not> line_terminator c) cs)"
        using None by (simp add: dot_star_rbrace_None)
      then have "m = [] @ [rbrace] \<and> c # cs = m @ cs \<and> (\<forall>c \<in> set []. \<not> line_terminator c) \<and>
          rbrace \<notin> set (takeWhile (\<lambda>c. \<not> line_terminator c) cs)"
        using m by simp
      then show ?thesis by blast
    next
      case (Some m')
      then have m: "m = c # m'" using Cons.prems False by simp
      from Cons.IH[OF Some] obtain body post where
        b: "m' = body @ [rbrace]" "cs = m' @ post" "\<forall>c \<in> set body. \<not> line_terminator c"
           "rbrace \<notin> set (takeWhile (\<lambda>c. \<not> line_terminator c) post)"
        by blast
      have "m = (c # body) @ [rbrace] \<and> c # cs = m @ post \<and>
          (\<forall>x \<in> set (c # body). \<not> line_terminator x) \<and>
          rbrace \<notin> set (takeWhile (\<lambda>c. \<not> line_terminator c) post)"
        using m b False by simp
      then show ?thesis by blast
    qed
  qed
qed

lemma regex_match_None:
  "regex_match s = None \<longleftrightarrow>
     (\<forall>pre rest. s = pre @ lbrace # rest \<longrightarrow>
        rbrace \<notin> set (takeWhile (\<lambda>c. \<not> line_terminator c) rest))"
proof (induction s)
  case Nil
  then show ?case by simp
next
  case (Cons c cs)
  show ?case
  proof
    assume n: "regex_match (c # cs) = None"
    then have tl_none: "regex_match cs = None" by (auto split: option.splits if_splits)
    have hd_none: "c = lbrace \<Longrightarrow> dot_star_rbrace cs = None"
      using n by (auto split: option.splits if_splits)
    show "\<forall>pre rest. c # cs = pre @ lbrace # rest \<longrightarrow>
        rbrace \<notin> set (takeWhile (\<lambda>c. \<not> line_terminator c) rest)"
    proof (intro allI impI)
      fix pre rest
      assume eq: "c # cs = pre @ lbrace # rest"
      show "rbrace \<notin> set (takeWhile (\<lambda>c. \<not> line_terminator c) rest)"
      proof (cases pre)
        case Nil
        then show ?thesis using eq hd_none by (simp add: dot_star_rbrace_None)
      next
        case (Cons p ps)
        then have "cs = ps @ lbrace # rest" using eq by simp
        then show ?thesis using tl_none Cons.IH by blast
      qed
    qed
  next
    assume a: "\<forall>pre rest. c # cs = pre @ lbrace # rest \<longrightarrow>
        rbrace \<notin> set (takeWhile (\<lambda>c. \<not> line_terminator c) rest)"
    have "\<forall>pre rest. cs = pre @ lbrace # rest \<longrightarrow>
        rbrace \<notin> set (takeWhile (\<lambda>c. \<not> line_terminator c) rest)"
    proof (intro allI impI)
      fix pre rest
      assume "cs = pre @ lbrace # rest"
      then have "c # cs = (c # pre) @ lbrace # rest" by simp
      then show "rbrace \<notin> set (takeWhile (\<lambda>c. \<not> line_terminator c) rest)" using a by blast
    qed
    then have tl_none: "regex_match cs = None" using Cons.IH by simp
    have "c = lbrace \<Longrightarrow> dot_star_rbrace cs = None"
    proof -
      assume "c = lbrace"
      then have "c # cs = [] @ lbrace # cs" by simp
      then have "rbrace \<notin> set (takeWhile (\<lambda>c. \<not> line_terminator c) cs)" using a by blast
      then show ?thesis by (simp add: dot_star_rbrace_None)
    qed
    then show "regex_match (c # cs) = None" using tl_none by simp
  qed
qed

lemma regex_match_Some:
  "regex_match s = Some m \<Longrightarrow>
     \<exists>pre body post. s = pre @ m @ post \<and> m = lbrace # body @ [rbrace] \<and>
       (\<forall>c \<in> set body. \<not> line_terminator c) \<and>
       rbrace \<notin> set (takeWhile (\<lambda>c. \<not> line_terminator c) post) \<and>
       (\<forall>p1 p2. pre = p1 @ lbrace # p2 \<longrightarrow>
          rbrace \<notin> set (takeWhile (\<lambda>c. \<not> line_terminator c) (p2 @ m @ post)))"
proof (induction s arbitrary: m)
  case Nil
  then show ?case by simp
next
  case (Cons c cs)
  show ?case
  proof (cases "c = lbrace \<and> dot_star_rbrace cs \<noteq> None")
    case True
    then obtain m' where m': "dot_star_rbrace cs = Some m'" by blast
    then have m: "m = lbrace # m'" using Cons.prems True by simp
    from dot_star_rbrace_Some[OF m'] obtain body post where
      b: "m' = body @ [rbrace]" "cs = m' @ post" "\<forall>c \<in> set body. \<not> line_terminator c"
         "rbrace \<notin> set (takeWhile (\<lambda>c. \<not> line_terminator c) post)"
      by blast
    have "c # cs = [] @ m @ post \<and> m = lbrace # body @ [rbrace] \<and>
       (\<forall>c \<in> set body. \<not> line_terminator c) \<and>
       rbrace \<notin> set (takeWhile (\<lambda>c. \<not> line_terminator c) post) \<and>
       (\<forall>p1 p2. [] = p1 @ lbrace # p2 \<longrightarrow>
          rbrace \<notin> set (takeWhile (\<lambda>c. \<not> line_terminator c) (p2 @ m @ post)))"
      using m b True by simp
    then show ?thesis by blast
  next
    case False
    then have hd_none: "(if c = lbrace then dot_star_rbrace cs else None) = None" by auto
    then have rec: "regex_match cs = Some m" using Cons.prems by simp
    from Cons.IH[OF rec] obtain pre body post where
      b: "cs = pre @ m @ post" "m = lbrace # body @ [rbrace]" "\<forall>c \<in> set body. \<not> line_terminator c"
         "rbrace \<notin> set (takeWhile (\<lambda>c. \<not> line_terminator c) post)"
         "\<forall>p1 p2. pre = p1 @ lbrace # p2 \<longrightarrow>
            rbrace \<notin> set (takeWhile (\<lambda>c. \<not> line_terminator c) (p2 @ m @ post))"
      by blast
    have left: "\<forall>p1 p2. c # pre = p1 @ lbrace # p2 \<longrightarrow>
            rbrace \<notin> set (takeWhile (\<lambda>c. \<not> line_terminator c) (p2 @ m @ post))"
    proof (intro allI impI)
      fix p1 p2
      assume eq: "c # pre = p1 @ lbrace # p2"
      show "rbrace \<notin> set (takeWhile (\<lambda>c. \<not> line_terminator c) (p2 @ m @ post))"
      proof (cases p1)
        case Nil
        then have "c = lbrace" "p2 = pre" using eq by simp_all
        then have "dot_star_rbrace (p2 @ m @ post) = None" using False b(1) by simp
        then show ?thesis using dot_star_rbrace_None by blast
      next
        case (Cons q qs)
        then have "pre = qs @ lbrace # p2" using eq by simp
        then show ?thesis using b(5) by blast
      qed
    qed
    have "c # cs = (c # pre) @ m @ post" using b(1) by simp
    then show ?thesis using b(2,3,4) left by blast
  qed
qed

section \<open>Properties of formatError\<close>

lemma formatError_try_cases:
  "formatError_try parse stringify error =
     (case regex_match error of
        None \<Rightarrow> Inr error
      | Some m \<Rightarrow>
          (case parse m of
             Inl exn \<Rightarrow> Inl exn
           | Inr parsedError \<Rightarrow>
               (case get_error parsedError of
                  None \<Rightarrow> Inr error
                | Some e \<Rightarrow> if truthy e then stringify e else Inr error)))"
  by (simp add: formatError_try_def)

text \<open>
  Claim C8, as amended. \<open>formatError\<close> never throws: it returns a string for every input,
  whatever \<open>JSON.parse\<close> and \<open>JSON.stringify\<close> do. Its cases apply in a fixed order. An
  input that contains \<open>insufficient funds\<close> gives \<open>Insufficient balance\<close>, also when it
  contains \<open>0x1771\<close>. Otherwise an input that contains \<open>0x1771\<close> gives
  \<open>Slippage tolerance exceeded\<close>. Otherwise, when the regular expression \<open>/{.*}/\<close> matches
  and its match parses as JSON with a truthy \<open>error\<close> field, the result is that field
  serialised again. In every other case (no match, a match that does not parse, where the
  exception is caught, a missing or falsy \<open>error\<close> field) the input comes back unchanged.
  The match is one piece of the input: it starts at the first opening brace that has a
  closing brace after it on the same line, and it ends at the last closing brace of that
  line.
\<close>

theorem formatError_precedence:
  "(\<exists>r. formatError parse stringify error = Inr r) \<and>
   (str_includes error (js ''insufficient funds'') \<longrightarrow>
      formatError parse stringify error = Inr (js ''Insufficient balance'')) \<and>
   (\<not> str_includes error (js ''insufficient funds'') \<and> str_includes error (js ''0x1771'') \<longrightarrow>
      formatError parse stringify error = Inr (js ''Slippage tolerance exceeded'')) \<and>
   (\<not> str_includes error (js ''insufficient funds'') \<and> \<not> str_includes error (js ''0x1771'') \<and>
    regex_match error = Some m \<and> parse m = Inr parsed \<and> get_error parsed = Some e \<and> truthy e \<and>
    stringify e = Inr s \<longrightarrow>
      formatError parse stringify error = Inr s) \<and>
   (\<not> str_includes error (js ''insufficient funds'') \<and> \<not> str_includes error (js ''0x1771'') \<and>
    (regex_match error = None \<or>
     (\<exists>m' x. regex_match error = Some m' \<and> parse m' = Inl x) \<or>
     (\<exists>m' v. regex_match error = Some m' \<and> parse m' = Inr v \<and>
        (get_error v = None \<or>
         (\<exists>e'. get_error v = Some e' \<and> (\<not> truthy e' \<or> (\<exists>x. stringify e' = Inl x)))))) \<longrightarrow>
      formatError parse stringify error = Inr error) \<and>
   (regex_match error = Some m \<longrightarrow>
      (\<exists>pre body post. error = pre @ m @ post \<and> m = lbrace # body @ [rbrace] \<and>
         (\<forall>c \<in> set body. \<not> line_terminator c) \<and>
         rbrace \<notin> set (takeWhile (\<lambda>c. \<not> line_terminator c) post) \<and>
         (\<forall>p1 p2. pre = p1 @ lbrace # p2 \<longrightarrow>
            rbrace \<notin> set (takeWhile (\<lambda>c. \<not> line_terminator c) (p2 @ m @ post)))))"
proof (intro conjI)
  show "\<exists>r. formatError parse stringify error = Inr r"
    by (simp add: formatError_def split: sum.splits)
  show "str_includes error (js ''insufficient funds'') \<longrightarrow>
      formatError parse stringify error = Inr (js ''Insufficient balance'')"
    by (simp add: formatError_def)
  show "\<not> str_includes error (js ''insufficient funds'') \<and> str_includes error (js ''0x1771'') \<longrightarrow>
      formatError parse stringify error = Inr (js ''Slippage tolerance exceeded'')"
    by (simp add: formatError_def)
  show "\<not> str_includes error (js ''insufficient funds'') \<and> \<not> str_includes error (js ''0x1771'') \<and>
    regex_match error = Some m \<and> parse m = Inr parsed \<and> get_error parsed = Some e \<and> truthy e \<and>
    stringify e = Inr s \<longrightarrow>
      formatError parse stringify error = Inr s"
    by (simp add: formatError_def formatError_try_cases)
  show "\<not> str_includes error (js ''insufficient funds'') \<and> \<not> str_includes error (js ''0x1771'') \<and>
    (regex_match error = None \<or>
     (\<exists>m' x. regex_match error = Some m' \<and> parse m' = Inl x) \<or>
     (\<exists>m' v. regex_match error = Some m' \<and> parse m' = Inr v \<and>
        (get_error v = None \<or>
         (\<exists>e'. get_error v = Some e' \<and> (\<not> truthy e' \<or> (\<exists>x. stringify e' = Inl x)))))) \<longrightarrow>
      formatError parse stringify error = Inr error"
    by (auto simp: formatError_def formatError_try_cases)
  show "regex_match error = Some m \<longrightarrow>
      (\<exists>pre body post. error = pre @ m @ post \<and> m = lbrace # body @ [rbrace] \<and>
         (\<forall>c \<in> set body. \<not> line_terminator c) \<and>
         rbrace \<notin> set (takeWhile (\<lambda>c. \<not> line_terminator c) post) \<and>
         (\<forall>p1 p2. pre = p1 @ lbrace # p2 \<longrightarrow>
            rbrace \<notin> set (takeWhile (\<lambda>c. \<not> line_terminator c) (p2 @ m @ post))))"
    using regex_match_Some[of error m] by blast
qed

text \<open>
  Witness for C8, one input per case: both markers present, the slippage code alone, an
  embedded JSON object with an \<open>error\<close> field, a message without braces, braces around
  text that is not JSON, and an object whose \<open>error\<close> field is zero. \<open>JSON.parse\<close> and
  \<open>JSON.stringify\<close> are given by their values on the texts involved.
\<close>

theorem formatError_precedence_witness:
  \<open>formatError (\<lambda>text. Inl SyntaxError) (\<lambda>v. Inl TypeError)
      (js ''Error: insufficient funds for rent, custom program error: 0x1771'')
     = Inr (js ''Insufficient balance'') \<and>
   formatError (\<lambda>text. Inl SyntaxError) (\<lambda>v. Inl TypeError)
      (js ''custom program error: 0x1771'')
     = Inr (js ''Slippage tolerance exceeded'') \<and>
   formatError
      (\<lambda>text. if text = js ''{"error":"x"}'' then Inr (JObject [(js ''error'', JString (js ''x''))])
              else Inl SyntaxError)
      (\<lambda>v. if v = JString (js ''x'') then Inr (js ''"x"'') else Inl TypeError)
      (js ''failed: {"error":"x"} (1)'')
     = Inr (js ''"x"'') \<and>
   formatError (\<lambda>text. Inl SyntaxError) (\<lambda>v. Inl TypeError) (js ''timed out'')
     = Inr (js ''timed out'') \<and>
   formatError (\<lambda>text. Inl SyntaxError) (\<lambda>v. Inl TypeError) (js ''failed: {no json} (1)'')
     = Inr (js ''failed: {no json} (1)'') \<and>
   formatError
      (\<lambda>text. if text = js ''{"error":0}'' then Inr (JObject [(js ''error'', JNumber (Finite 0))])
              else Inl SyntaxError)
      (\<lambda>v. Inl TypeError) (js ''{"error":0}'')
     = Inr (js ''{"error":0}'') \<and>
   (\<exists>pre body post. js ''failed: {no json} (1)'' = pre @ js ''{no json}'' @ post \<and>
      js ''{no json}'' = lbrace # body @ [rbrace])\<close>
proof -
  let ?p0 = "\<lambda>text::js_string. (Inl SyntaxError :: js_exception + json)"
  let ?s0 = "\<lambda>v::json. (Inl TypeError :: js_exception + js_string)"
  let ?p1 = \<open>\<lambda>text. if text = js ''{"error":"x"}'' then Inr (JObject [(js ''error'', JString (js ''x''))])
              else (Inl SyntaxError :: js_exception + json)\<close>
  let ?s1 = \<open>\<lambda>v. if v = JString (js ''x'') then Inr (js ''"x"'') else (Inl TypeError :: js_exception + js_string)\<close>
  let ?p2 = \<open>\<lambda>text. if text = js ''{"error":0}'' then Inr (JObject [(js ''error'', JNumber (Finite 0))])
              else (Inl SyntaxError :: js_exception + json)\<close>
  have a: "str_includes (js ''Error: insufficient funds for rent, custom program error: 0x1771'')
             (js ''insufficient funds'')"
    by (simp add: js_def)
  have b: "\<not> str_includes (js ''custom program error: 0x1771'') (js ''insufficient funds'')"
      "str_includes (js ''custom program error: 0x1771'') (js ''0x1771'')"
    by (simp_all add: js_def)
  have c: \<open>\<not> str_includes (js ''failed: {"error":"x"} (1)'') (js ''insufficient funds'')\<close>
      \<open>\<not> str_includes (js ''failed: {"error":"x"} (1)'') (js ''0x1771'')\<close>
      \<open>regex_match (js ''failed: {"error":"x"} (1)'') = Some (js ''{"error":"x"}'')\<close>
    by (simp_all add: js_def lbrace_def rbrace_def line_terminator_def)
  have d: \<open>\<not> str_includes (js ''failed: {no json} (1)'') (js ''insufficient funds'')\<close>
      \<open>\<not> str_includes (js ''failed: {no json} (1)'') (js ''0x1771'')\<close>
      \<open>regex_match (js ''failed: {no json} (1)'') = Some (js ''{no json}'')\<close>
    by (simp_all add: js_def lbrace_def rbrace_def line_terminator_def)
  have e: "get_error (JObject [(js ''error'', JString (js ''x''))]) = Some (JString (js ''x''))"
      "truthy (JString (js ''x''))"
    by (simp_all add: js_def)
  have f: \<open>\<not> str_includes (js ''timed out'') (js ''insufficient funds'')\<close>
      \<open>\<not> str_includes (js ''timed out'') (js ''0x1771'')\<close>
      \<open>regex_match (js ''timed out'') = None\<close>
    by (simp_all add: js_def lbrace_def rbrace_def line_terminator_def)
  have g: \<open>\<not> str_includes (js ''{"error":0}'') (js ''insufficient funds'')\<close>
      \<open>\<not> str_includes (js ''{"error":0}'') (js ''0x1771'')\<close>
      \<open>regex_match (js ''{"error":0}'') = Some (js ''{"error":0}'')\<close>
      \<open>get_error (JObject [(js ''error'', JNumber (Finite 0))]) = Some (JNumber (Finite 0))\<close>
      \<open>\<not> truthy (JNumber (Finite 0))\<close>
    by (simp_all add: js_def lbrace_def rbrace_def line_terminator_def)
  note t1 = formatError_precedence
            [of ?p0 ?s0 "js ''Error: insufficient funds for rent, custom program error: 0x1771''"]
  note t2 = formatError_precedence [of ?p0 ?s0 "js ''custom program error: 0x1771''"]
  note t3 = formatError_precedence
            [of ?p1 ?s1 \<open>js ''failed: {"error":"x"} (1)''\<close> \<open>js ''{"error":"x"}''\<close>
                "JObject [(js ''error'', JString (js ''x''))]" "JString (js ''x'')" \<open>js ''"x"''\<close>]
  note t4 = formatError_precedence [of ?p0 ?s0 "js ''timed out''"]
  note t5 = formatError_precedence
            [of ?p0 ?s0 "js ''failed: {no json} (1)''" "js ''{no json}''" JNull JNull "[]"]
  note t6 = formatError_precedence [of ?p2 ?s0 \<open>js ''{"error":0}''\<close>]
  have 1: "formatError ?p0 ?s0
      (js ''Error: insufficient funds for rent, custom program error: 0x1771'')
      = Inr (js ''Insufficient balance'')"
    using t1 a by blast
  have 2: "formatError ?p0 ?s0 (js ''custom program error: 0x1771'')
      = Inr (js ''Slippage tolerance exceeded'')"
    using t2 b by blast
  have 3: \<open>formatError ?p1 ?s1 (js ''failed: {"error":"x"} (1)'') = Inr (js ''"x"'')\<close>
    using t3 c e by simp
  have 4: "formatError ?p0 ?s0 (js ''timed out'') = Inr (js ''timed out'')"
    using t4 f by blast
  have 5: "formatError ?p0 ?s0 (js ''failed: {no json} (1)'') = Inr (js ''failed: {no json} (1)'')"
    using t5 d by simp
  have 6: \<open>formatError ?p2 ?s0 (js ''{"error":0}'') = Inr (js ''{"error":0}'')\<close>
    using t6 g by simp
  from t5 have "regex_match (js ''failed: {no json} (1)'') = Some (js ''{no json}'') \<longrightarrow>
      (\<exists>pre body post. js ''failed: {no json} (1)'' = pre @ js ''{no json}'' @ post \<and>
         js ''{no json}'' = lbrace # body @ [rbrace] \<and>
         (\<forall>c \<in> set body. \<not> line_terminator c) \<and>
         rbrace \<notin> set (takeWhile (\<lambda>c. \<not> line_terminator c) post) \<and>
         (\<forall>p1 p2. pre = p1 @ lbrace # p2 \<longrightarrow>
            rbrace \<notin> set (takeWhile (\<lambda>c. \<not> line_terminator c) (p2 @ js ''{no json}'' @ post))))"
    by (elim conjE)
  then have 7: "\<exists>pre body post. js ''failed: {no json} (1)'' = pre @ js ''{no json}'' @ post \<and>
      js ''{no json}'' = lbrace # body @ [rbrace]"
    using d(3) by blast
  show ?thesis using 1 2 3 4 5 6 7 by (intro conjI)
qed

text \<open>
  Counterexample to C8 as stated. The first input is a JSON object printed over three
  lines: it is delimited by braces and parses with a truthy \<open>error\<close> field, but the dot of
  the regular expression does not cross a line break, nothing matches, and the input comes
  back unchanged. The second input holds two objects on one line: its piece
  \<open>{"error":"x"}\<close> is delimited by braces and parses with a truthy \<open>error\<close> field, but
  the match runs from the first opening brace to the last closing brace, does not parse,
  and the input comes back unchanged.
\<close>

theorem formatError_brace_counterexample:
  \<open>let pretty = js ''{'' @ [0x000A] @ js ''  "error": "x"'' @ [0x000A] @ js ''}'';
       two = js ''{"a":1} {"error":"x"}'';
       parse = (\<lambda>text. if text = pretty \<or> text = js ''{"error":"x"}''
                        then Inr (JObject [(js ''error'', JString (js ''x''))])
                      else if text = js ''{"a":1}''
                        then Inr (JObject [(js ''a'', JNumber (Finite 1))])
                      else Inl SyntaxError);
       stringify = (\<lambda>v. if v = JString (js ''x'') then Inr (js ''"x"'') else Inl TypeError)
   in hd pretty = lbrace \<and> last pretty = rbrace \<and>
      parse pretty = Inr (JObject [(js ''error'', JString (js ''x''))]) \<and>
      truthy (JString (js ''x'')) \<and>
      regex_match pretty = None \<and>
      formatError parse stringify pretty = Inr pretty \<and>
      pretty \<noteq> js ''"x"'' \<and>
      two = js ''{"a":1} '' @ js ''{"error":"x"}'' \<and>
      parse (js ''{"error":"x"}'') = Inr (JObject [(js ''error'', JString (js ''x''))]) \<and>
      regex_match two = Some two \<and>
      parse two = Inl SyntaxError \<and>
      formatError parse stringify two = Inr two \<and>
      two \<noteq> js ''"x"''\<close>
  by (simp add: Let_def formatError_def formatError_try_def js_def lbrace_def rbrace_def
      line_terminator_def)

section \<open>Properties of formatNumber\<close>

lemma digits_small: "n < 10 \<Longrightarrow> digits n = [digit_char n]"
  by (simp add: digits.simps)

lemma digits_large: "10 \<le> n \<Longrightarrow> digits n = digits (n div 10) @ [digit_char (n mod 10)]"
  by (subst digits.simps) simp

lemma is_digit_digit_char: "d < 10 \<Longrightarrow> is_digit (digit_char d)"
proof -
  assume "d < 10"
  then have "d \<in> {0, 1, 2, 3, 4, 5, 6, 7, 8, 9}" by auto
  then show ?thesis by (auto simp: is_digit_def digit_char_def)
qed

lemma digits_all_digit: "list_all is_digit (digits n)"
proof (induction n rule: digits.induct)
  case (1 n)
  show ?case
  proof (cases "n < 10")
    case True
    then show ?thesis by (simp add: digits_small is_digit_digit_char)
  next
    case False
    then have "list_all is_digit (digits (n div 10))" by (rule "1.IH")
    moreover have "is_digit (digit_char (n mod 10))" by (simp add: is_digit_digit_char)
    ultimately show ?thesis using False by (simp add: digits_large)
  qed
qed

lemma minus_not_digit: "is_digit c \<Longrightarrow> c \<noteq> 0x002D"
  by (auto simp: is_digit_def)

lemma two_decimals_form:
  assumes "whole \<noteq> []" "list_all is_digit whole" "is_digit d1" "is_digit d2"
    and "sign = [] \<or> sign = [0x002D]"
  shows "two_decimals (sign @ whole @ [0x002E, d1, d2])"
proof -
  obtain w ws where w: "whole = w # ws" using assms(1) by (cases whole) auto
  then have "is_digit w" using assms(2) by simp
  then have nm: "w \<noteq> 0x002D" by (rule minus_not_digit)
  have strip: "(case sign @ whole @ [0x002E, d1, d2] of [] \<Rightarrow> []
      | c # cs \<Rightarrow> if c = 0x002D then cs else sign @ whole @ [0x002E, d1, d2])
      = whole @ [0x002E, d1, d2]"
    using assms(5) w nm by auto
  have "rev (whole @ [0x002E, d1, d2]) = d2 # d1 # 0x002E # rev whole" by simp
  then show ?thesis
    unfolding two_decimals_def strip using assms(1-4) by simp
qed

text \<open>Below \<open>10^21\<close> in magnitude, \<open>toFixed(2)\<close> renders to two decimals.\<close>

lemma toFixed_two_decimals:
  assumes "\<bar>v\<bar> < 10 ^ 21"
  shows "two_decimals (toFixed toString_large (Finite v) 2)"
proof -
  define n where "n = nat \<lfloor>\<bar>v\<bar> * 10 ^ 2 + 1 / 2\<rfloor>"
  define m where "m = (if length (digits n) \<le> 2
                       then replicate (3 - length (digits n)) 0x0030 @ digits n else digits n)"
  define sign :: js_string where "sign = (if v < 0 then js ''-'' else [])"
  have zero: "is_digit 0x0030" by (simp add: is_digit_def)
  have all: "list_all is_digit m"
    using digits_all_digit[of n] zero by (simp add: m_def list_all_iff)
  have len: "3 \<le> length m"
    by (simp add: m_def)
  have res: "toFixed toString_large (Finite v) 2
      = sign @ take (length m - 2) m @ js ''.'' @ drop (length m - 2) m"
    using assms by (simp add: toFixed_def Let_def n_def m_def sign_def)
  obtain d1 d2 where d: "drop (length m - 2) m = [d1, d2]"
  proof -
    have "length (drop (length m - 2) m) = 2" using len by simp
    then obtain a b where "drop (length m - 2) m = [a, b]"
      by (metis (no_types, opaque_lifting) One_nat_def Suc_1 length_0_conv length_Suc_conv)
    then show ?thesis using that by blast
  qed
  have "set (drop (length m - 2) m) \<subseteq> set m" by (rule set_drop_subset)
  then have dd: "is_digit d1" "is_digit d2" using all d by (auto simp: list_all_iff)
  have "set (take (length m - 2) m) \<subseteq> set m" by (rule set_take_subset)
  then have tk: "list_all is_digit (take (length m - 2) m)" using all by (auto simp: list_all_iff)
  have ne: "take (length m - 2) m \<noteq> []" using len by auto
  have sg: "sign = [] \<or> sign = [0x002D]" by (simp add: sign_def js_def)
  have "js ''.'' = [0x002E]" by (simp add: js_def)
  then have "toFixed toString_large (Finite v) 2
      = sign @ take (length m - 2) m @ [0x002E, d1, d2]"
    using res d by simp
  then show ?thesis using two_decimals_form[OF ne tk dd sg] by simp
qed

text \<open>
  Claim C9, as amended. For every number, \<open>formatNumber\<close> returns a string that begins
  with \<open>$\<close>, and exactly one branch applies, by descending thresholds: from 1,000,000,000
  on, the number divided by 1e9 and rendered by \<open>toFixed(2)\<close> with the suffix \<open>B\<close>; otherwise
  from 1,000,000 on, the same with 1e6 and \<open>M\<close>; otherwise from 1,000 on, with 1e3 and
  \<open>K\<close>; otherwise the number itself rendered by \<open>toFixed(2)\<close> with no suffix. The rendering
  has exactly two decimals whenever the value rendered is finite and below \<open>10^21\<close> in
  magnitude. NaN takes the last branch and gives \<open>$NaN\<close>, positive infinity the first and
  gives \<open>$InfinityB\<close>, negative infinity the last and gives \<open>$-Infinity\<close>.
\<close>

theorem formatNumber_branches:
  "(\<exists>rest. formatNumber to_double toString_large num = js ''$'' @ rest) \<and>
   (num = Finite x \<and> 1000000000 \<le> x \<longrightarrow>
      formatNumber to_double toString_large num
        = js ''$'' @ toFixed toString_large (to_double (x / 1000000000)) 2 @ js ''B'') \<and>
   (num = Finite x \<and> 1000000 \<le> x \<and> x < 1000000000 \<longrightarrow>
      formatNumber to_double toString_large num
        = js ''$'' @ toFixed toString_large (to_double (x / 1000000)) 2 @ js ''M'') \<and>
   (num = Finite x \<and> 1000 \<le> x \<and> x < 1000000 \<longrightarrow>
      formatNumber to_double toString_large num
        = js ''$'' @ toFixed toString_large (to_double (x / 1000)) 2 @ js ''K'') \<and>
   (num = Finite x \<and> x < 1000 \<longrightarrow>
      formatNumber to_double toString_large num = js ''$'' @ toFixed toString_large (Finite x) 2) \<and>
   (\<bar>v\<bar> < 10 ^ 21 \<longrightarrow> two_decimals (toFixed toString_large (Finite v) 2)) \<and>
   formatNumber to_double toString_large NaN = js ''$NaN'' \<and>
   formatNumber to_double toString_large PosInfinity = js ''$InfinityB'' \<and>
   formatNumber to_double toString_large NegInfinity = js ''$-Infinity''"
proof (intro conjI)
  show "\<exists>rest. formatNumber to_double toString_large num = js ''$'' @ rest"
    by (simp add: formatNumber_def)
  show "num = Finite x \<and> 1000000000 \<le> x \<longrightarrow>
      formatNumber to_double toString_large num
        = js ''$'' @ toFixed toString_large (to_double (x / 1000000000)) 2 @ js ''B''"
    by (simp add: formatNumber_def number_div_def)
  show "num = Finite x \<and> 1000000 \<le> x \<and> x < 1000000000 \<longrightarrow>
      formatNumber to_double toString_large num
        = js ''$'' @ toFixed toString_large (to_double (x / 1000000)) 2 @ js ''M''"
    by (simp add: formatNumber_def number_div_def)
  show "num = Finite x \<and> 1000 \<le> x \<and> x < 1000000 \<longrightarrow>
      formatNumber to_double toString_large num
        = js ''$'' @ toFixed toString_large (to_double (x / 1000)) 2 @ js ''K''"
    by (simp add: formatNumber_def number_div_def)
  show "num = Finite x \<and> x < 1000 \<longrightarrow>
      formatNumber to_double toString_large num = js ''$'' @ toFixed toString_large (Finite x) 2"
    by (simp add: formatNumber_def)
  show "\<bar>v\<bar> < 10 ^ 21 \<longrightarrow> two_decimals (toFixed toString_large (Finite v) 2)"
    by (simp add: toFixed_two_decimals)
  show "formatNumber to_double toString_large NaN = js ''$NaN''"
    by (simp add: formatNumber_def toFixed_def js_def)
  show "formatNumber to_double toString_large PosInfinity = js ''$InfinityB''"
    by (simp add: formatNumber_def number_div_def toFixed_def js_def)
  show "formatNumber to_double toString_large NegInfinity = js ''$-Infinity''"
    by (simp add: formatNumber_def toFixed_def js_def)
qed

text \<open>
  Witness for C9: one number per branch, each with a quotient that is a double, so that
  the rounding of the division is the identity on it.
\<close>

theorem formatNumber_branches_witness:
  "formatNumber Finite (\<lambda>v. []) (Finite 2500000000) = js ''$2.50B'' \<and>
   formatNumber Finite (\<lambda>v. []) (Finite 1250000) = js ''$1.25M'' \<and>
   formatNumber Finite (\<lambda>v. []) (Finite 1000) = js ''$1.00K'' \<and>
   formatNumber Finite (\<lambda>v. []) (Finite (1999 / 2)) = js ''$999.50'' \<and>
   formatNumber Finite (\<lambda>v. []) (Finite (- (1 / 1024))) = js ''$-0.00'' \<and>
   two_decimals (js ''-0.00'')"
proof -
  let ?ts = "\<lambda>v::rat. [] :: js_string"
  have f: "\<lfloor>(501 :: rat) / 2\<rfloor> = 250" "\<lfloor>(251 :: rat) / 2\<rfloor> = 125"
      "\<lfloor>(201 :: rat) / 2\<rfloor> = 100" "\<lfloor>(199901 :: rat) / 2\<rfloor> = 99950"
    by (simp_all add: floor_eq_iff)
  have r: "toFixed ?ts (Finite (5 / 2)) 2 = js ''2.50''"
      "toFixed ?ts (Finite (5 / 4)) 2 = js ''1.25''"
      "toFixed ?ts (Finite 1) 2 = js ''1.00''"
      "toFixed ?ts (Finite (1999 / 2)) 2 = js ''999.50''"
      "toFixed ?ts (Finite (- (1 / 1024))) 2 = js ''-0.00''"
    by (simp_all add: toFixed_def js_def digit_char_def Let_def digits_small digits_large f)
  have small: "\<bar>- (1 / 1024) :: rat\<bar> < 10 ^ 21" by simp
  note b = formatNumber_branches [of Finite ?ts "Finite 2500000000" 2500000000]
  note m = formatNumber_branches [of Finite ?ts "Finite 1250000" 1250000]
  note k = formatNumber_branches [of Finite ?ts "Finite 1000" 1000]
  note p = formatNumber_branches [of Finite ?ts "Finite (1999 / 2)" "1999 / 2"]
  note n = formatNumber_branches [of Finite ?ts "Finite (- (1 / 1024))" "- (1 / 1024)" "- (1 / 1024)"]
  have 1: "formatNumber Finite ?ts (Finite 2500000000) = js ''$2.50B''"
    using b r(1) by (simp add: js_def)
  have 2: "formatNumber Finite ?ts (Finite 1250000) = js ''$1.25M''"
    using m r(2) by (simp add: js_def)
  have 3: "formatNumber Finite ?ts (Finite 1000) = js ''$1.00K''"
    using k r(3) by (simp add: js_def)
  have 4: "formatNumber Finite ?ts (Finite (1999 / 2)) = js ''$999.50''"
    using p r(4) by (simp add: js_def)
  have 5: "formatNumber Finite ?ts (Finite (- (1 / 1024))) = js ''$-0.00''"
    using n r(5) by (simp add: js_def)
  from n have "\<bar>- (1 / 1024) :: rat\<bar> < 10 ^ 21
      \<longrightarrow> two_decimals (toFixed ?ts (Finite (- (1 / 1024))) 2)"
    by (elim conjE)
  then have 6: "two_decimals (js ''-0.00'')" using small r(5) by simp
  show ?thesis using 1 2 3 4 5 6 by (intro conjI)
qed

text \<open>
  Counterexample to C9 as stated: NaN and positive infinity are numbers, and what is
  rendered for them is not a rendering to two decimals.
\<close>

theorem formatNumber_NaN_counterexample:
  "formatNumber Finite (\<lambda>v. []) NaN = js ''$NaN'' \<and>
   \<not> two_decimals (js ''NaN'') \<and>
   formatNumber Finite (\<lambda>v. []) PosInfinity = js ''$InfinityB'' \<and>
   \<not> two_decimals (js ''Infinity'')"
  by (simp add: formatNumber_def number_div_def toFixed_def two_decimals_def is_digit_def js_def)

section \<open>Properties of renderStatus and TransactionLink\<close>

text \<open>
  Claim C10, as amended. \<open>renderStatus\<close> returns an indicator for the four status strings
  \<open>Pending\<close>, \<open>Completed\<close>, \<open>Failed\<close> and \<open>Cancelled\<close> only; for every other string it falls
  through the switch and returns \<open>undefined\<close>. \<open>TransactionLink\<close> puts that value first among
  its children, so it shows no indicator for such a status, and for every status it goes
  on to render the link of the transaction hash (to blockscan.com when the hash starts with
  \<open>0x\<close>, to solscan.io otherwise) and the formatted error, each when it is neither
  \<open>null\<close> nor the empty string. A \<open>null\<close> renders as nothing, and so does an empty
  string.
\<close>

theorem TransactionLink_renders:
  "(renderStatus status \<noteq> Undefined \<longleftrightarrow>
      status = js ''Pending'' \<or> status = js ''Completed'' \<or> status = js ''Failed'' \<or>
      status = js ''Cancelled'') \<and>
   (\<exists>attrs link err.
      TransactionLink parse stringify status transactionHash error
        = Inr (Element ''div'' attrs [renderStatus status, Text (js '' ''), link, err]) \<and>
      (transactionHash = None \<longrightarrow> link = Null) \<and>
      (transactionHash = Some [] \<longrightarrow> link = Text []) \<and>
      (\<forall>h. transactionHash = Some h \<and> h \<noteq> [] \<longrightarrow>
         (\<exists>span_attrs a_attrs kids.
            link = Element ''span'' span_attrs
                     [Element ''a''
                        ((''href'',
                          (if startsWith h (js ''0x'') then js ''https://blockscan.com/tx/'' @ h
                           else js ''https://solscan.io/tx/'' @ h)) # a_attrs)
                        kids])) \<and>
      (error = None \<longrightarrow> err = Null) \<and>
      (error = Some [] \<longrightarrow> err = Text []) \<and>
      (\<forall>e. error = Some e \<and> e \<noteq> [] \<longrightarrow>
         (\<exists>err_attrs msg.
            formatError parse stringify e = Inr msg \<and>
            err = Element ''span'' err_attrs [Text msg])))"
proof (intro conjI)
  show "renderStatus status \<noteq> Undefined \<longleftrightarrow>
      status = js ''Pending'' \<or> status = js ''Completed'' \<or> status = js ''Failed'' \<or>
      status = js ''Cancelled''"
    by simp
next
  have fe: "\<exists>r. formatError parse stringify e = Inr r" for e
    by (simp add: formatError_def split: sum.splits)
  show "\<exists>attrs link err.
      TransactionLink parse stringify status transactionHash error
        = Inr (Element ''div'' attrs [renderStatus status, Text (js '' ''), link, err]) \<and>
      (transactionHash = None \<longrightarrow> link = Null) \<and>
      (transactionHash = Some [] \<longrightarrow> link = Text []) \<and>
      (\<forall>h. transactionHash = Some h \<and> h \<noteq> [] \<longrightarrow>
         (\<exists>span_attrs a_attrs kids.
            link = Element ''span'' span_attrs
                     [Element ''a''
                        ((''href'',
                          (if startsWith h (js ''0x'') then js ''https://blockscan.com/tx/'' @ h
                           else js ''https://solscan.io/tx/'' @ h)) # a_attrs)
                        kids])) \<and>
      (error = None \<longrightarrow> err = Null) \<and>
      (error = Some [] \<longrightarrow> err = Text []) \<and>
      (\<forall>e. error = Some e \<and> e \<noteq> [] \<longrightarrow>
         (\<exists>err_attrs msg.
            formatError parse stringify e = Inr msg \<and>
            err = Element ''span'' err_attrs [Text msg]))"
  proof (cases error)
    case None
    then show ?thesis
      by (cases transactionHash)
         (simp_all add: TransactionLink_def and_then_def tx_href_def del: renderStatus.simps)
  next
    case (Some e)
    obtain r where r: "formatError parse stringify e = Inr r" using fe by blast
    show ?thesis
      using Some r
      by (cases transactionHash)
         (simp_all add: TransactionLink_def and_then_def tx_href_def del: renderStatus.simps)
  qed
qed

text \<open>
  Witness for C10: a status outside the four with a hash that starts with \<open>0x\<close> and an
  error message; one of the four with a hash that does not and no error; and a status
  outside the four with no hash and an empty error.
\<close>

theorem TransactionLink_renders_witness:
  "renderStatus (js ''Unknown'') = Undefined \<and>
   renderStatus (js ''Failed'') \<noteq> Undefined \<and>
   (\<exists>attrs span_attrs a_attrs kids err_attrs.
      TransactionLink (\<lambda>text. Inl SyntaxError) (\<lambda>v. Inl TypeError) (js ''Unknown'')
        (Some (js ''0xabcdef0123'')) (Some (js ''boom''))
      = Inr (Element ''div'' attrs
               [Undefined, Text (js '' ''),
                Element ''span'' span_attrs
                  [Element ''a''
                     ((''href'', js ''https://blockscan.com/tx/0xabcdef0123'') # a_attrs) kids],
                Element ''span'' err_attrs [Text (js ''boom'')]])) \<and>
   (\<exists>attrs span_attrs a_attrs kids.
      TransactionLink (\<lambda>text. Inl SyntaxError) (\<lambda>v. Inl TypeError) (js ''Failed'')
        (Some (js ''5VERv8NMvzbJ'')) None
      = Inr (Element ''div'' attrs
               [renderStatus (js ''Failed''), Text (js '' ''),
                Element ''span'' span_attrs
                  [Element ''a''
                     ((''href'', js ''https://solscan.io/tx/5VERv8NMvzbJ'') # a_attrs) kids],
                Null])) \<and>
   (\<exists>attrs.
      TransactionLink (\<lambda>text. Inl SyntaxError) (\<lambda>v. Inl TypeError) (js ''Unknown'')
        None (Some [])
      = Inr (Element ''div'' attrs [Undefined, Text (js '' ''), Null, Text []]))"
proof -
  let ?p = "\<lambda>text::js_string. (Inl SyntaxError :: js_exception + json)"
  let ?s = "\<lambda>v::json. (Inl TypeError :: js_exception + js_string)"
  have u: "js ''Unknown'' \<noteq> js ''Pending'' \<and> js ''Unknown'' \<noteq> js ''Completed'' \<and>
      js ''Unknown'' \<noteq> js ''Failed'' \<and> js ''Unknown'' \<noteq> js ''Cancelled''"
    by (simp add: js_def)
  have h: "js ''0xabcdef0123'' \<noteq> [] \<and> startsWith (js ''0xabcdef0123'') (js ''0x'') \<and>
      js ''https://blockscan.com/tx/'' @ js ''0xabcdef0123''
        = js ''https://blockscan.com/tx/0xabcdef0123''"
    by (simp add: js_def startsWith_def)
  have h2: "js ''5VERv8NMvzbJ'' \<noteq> [] \<and> \<not> startsWith (js ''5VERv8NMvzbJ'') (js ''0x'') \<and>
      js ''https://solscan.io/tx/'' @ js ''5VERv8NMvzbJ''
        = js ''https://solscan.io/tx/5VERv8NMvzbJ''"
    by (simp add: js_def startsWith_def)
  have e: "js ''boom'' \<noteq> [] \<and> formatError ?p ?s (js ''boom'') = Inr (js ''boom'')"
    by (simp add: js_def formatError_def formatError_try_def)
  note t = TransactionLink_renders
             [of "js ''Unknown''" ?p ?s "Some (js ''0xabcdef0123'')" "Some (js ''boom'')"]
  note t2 = TransactionLink_renders [of "js ''Failed''" ?p ?s "Some (js ''5VERv8NMvzbJ'')" None]
  note t3 = TransactionLink_renders [of "js ''Unknown''" ?p ?s None "Some []"]
  from t have "renderStatus (js ''Unknown'') \<noteq> Undefined \<longleftrightarrow>
      js ''Unknown'' = js ''Pending'' \<or> js ''Unknown'' = js ''Completed'' \<or>
      js ''Unknown'' = js ''Failed'' \<or> js ''Unknown'' = js ''Cancelled''"
    by (rule conjunct1)
  then have 1: "renderStatus (js ''Unknown'') = Undefined" using u by blast
  from t2 have "renderStatus (js ''Failed'') \<noteq> Undefined \<longleftrightarrow>
      js ''Failed'' = js ''Pending'' \<or> js ''Failed'' = js ''Completed'' \<or>
      js ''Failed'' = js ''Failed'' \<or> js ''Failed'' = js ''Cancelled''"
    by (rule conjunct1)
  then have 2: "renderStatus (js ''Failed'') \<noteq> Undefined" by blast
  from t obtain attrs link err where
    r: "TransactionLink ?p ?s (js ''Unknown'') (Some (js ''0xabcdef0123'')) (Some (js ''boom''))
        = Inr (Element ''div'' attrs [renderStatus (js ''Unknown''), Text (js '' ''), link, err])"
    and l: "\<forall>h. Some (js ''0xabcdef0123'') = Some h \<and> h \<noteq> [] \<longrightarrow>
         (\<exists>span_attrs a_attrs kids.
            link = Element ''span'' span_attrs
                     [Element ''a''
                        ((''href'',
                          (if startsWith h (js ''0x'') then js ''https://blockscan.com/tx/'' @ h
                           else js ''https://solscan.io/tx/'' @ h)) # a_attrs)
                        kids])"
    and m: "\<forall>e. Some (js ''boom'') = Some e \<and> e \<noteq> [] \<longrightarrow>
         (\<exists>err_attrs msg.
            formatError ?p ?s e = Inr msg \<and> err = Element ''span'' err_attrs [Text msg])"
    by (elim conjE exE)
  from l have "Some (js ''0xabcdef0123'') = Some (js ''0xabcdef0123'') \<and> js ''0xabcdef0123'' \<noteq> []
      \<longrightarrow> (\<exists>span_attrs a_attrs kids.
            link = Element ''span'' span_attrs
                     [Element ''a''
                        ((''href'',
                          (if startsWith (js ''0xabcdef0123'') (js ''0x'')
                           then js ''https://blockscan.com/tx/'' @ js ''0xabcdef0123''
                           else js ''https://solscan.io/tx/'' @ js ''0xabcdef0123'')) # a_attrs)
                        kids])"
    by (rule spec)
  then obtain span_attrs a_attrs kids where
    "link = Element ''span'' span_attrs
                     [Element ''a''
                        ((''href'',
                          (if startsWith (js ''0xabcdef0123'') (js ''0x'')
                           then js ''https://blockscan.com/tx/'' @ js ''0xabcdef0123''
                           else js ''https://solscan.io/tx/'' @ js ''0xabcdef0123'')) # a_attrs)
                        kids]"
    using h by blast
  then have l': "link = Element ''span'' span_attrs
           [Element ''a'' ((''href'', js ''https://blockscan.com/tx/0xabcdef0123'') # a_attrs) kids]"
    using h by simp
  from m have "Some (js ''boom'') = Some (js ''boom'') \<and> js ''boom'' \<noteq> [] \<longrightarrow>
         (\<exists>err_attrs msg.
            formatError ?p ?s (js ''boom'') = Inr msg \<and> err = Element ''span'' err_attrs [Text msg])"
    by (rule spec)
  then obtain err_attrs msg where
    "formatError ?p ?s (js ''boom'') = Inr msg" "err = Element ''span'' err_attrs [Text msg]"
    using e by blast
  then have m': "err = Element ''span'' err_attrs [Text (js ''boom'')]"
    using e by simp
  have "TransactionLink ?p ?s (js ''Unknown'') (Some (js ''0xabcdef0123'')) (Some (js ''boom''))
      = Inr (Element ''div'' attrs
               [Undefined, Text (js '' ''),
                Element ''span'' span_attrs
                  [Element ''a''
                     ((''href'', js ''https://blockscan.com/tx/0xabcdef0123'') # a_attrs) kids],
                Element ''span'' err_attrs [Text (js ''boom'')]])"
    using r 1 l' m' by (simp only:)
  then have 3: "\<exists>attrs span_attrs a_attrs kids err_attrs.
      TransactionLink ?p ?s (js ''Unknown'') (Some (js ''0xabcdef0123'')) (Some (js ''boom''))
      = Inr (Element ''div'' attrs
               [Undefined, Text (js '' ''),
                Element ''span'' span_attrs
                  [Element ''a''
                     ((''href'', js ''https://blockscan.com/tx/0xabcdef0123'') # a_attrs) kids],
                Element ''span'' err_attrs [Text (js ''boom'')]])"
    by blast
  from t2 obtain attrs2 link2 err2 where
    r2: "TransactionLink ?p ?s (js ''Failed'') (Some (js ''5VERv8NMvzbJ'')) None
        = Inr (Element ''div'' attrs2 [renderStatus (js ''Failed''), Text (js '' ''), link2, err2])"
    and l2: "\<forall>h. Some (js ''5VERv8NMvzbJ'') = Some h \<and> h \<noteq> [] \<longrightarrow>
         (\<exists>span_attrs a_attrs kids.
            link2 = Element ''span'' span_attrs
                     [Element ''a''
                        ((''href'',
                          (if startsWith h (js ''0x'') then js ''https://blockscan.com/tx/'' @ h
                           else js ''https://solscan.io/tx/'' @ h)) # a_attrs)
                        kids])"
    and n2: "(None :: js_string option) = None \<longrightarrow> err2 = Null"
    by (elim conjE exE)
  from l2 have "Some (js ''5VERv8NMvzbJ'') = Some (js ''5VERv8NMvzbJ'') \<and> js ''5VERv8NMvzbJ'' \<noteq> []
      \<longrightarrow> (\<exists>span_attrs a_attrs kids.
            link2 = Element ''span'' span_attrs
                     [Element ''a''
                        ((''href'',
                          (if startsWith (js ''5VERv8NMvzbJ'') (js ''0x'')
                           then js ''https://blockscan.com/tx/'' @ js ''5VERv8NMvzbJ''
                           else js ''https://solscan.io/tx/'' @ js ''5VERv8NMvzbJ'')) # a_attrs)
                        kids])"
    by (rule spec)
  then obtain span_attrs2 a_attrs2 kids2 where
    "link2 = Element ''span'' span_attrs2
                     [Element ''a''
                        ((''href'',
                          (if startsWith (js ''5VERv8NMvzbJ'') (js ''0x'')
                           then js ''https://blockscan.com/tx/'' @ js ''5VERv8NMvzbJ''
                           else js ''https://solscan.io/tx/'' @ js ''5VERv8NMvzbJ'')) # a_attrs2)
                        kids2]"
    using h2 by blast
  then have l2': "link2 = Element ''span'' span_attrs2
           [Element ''a'' ((''href'', js ''https://solscan.io/tx/5VERv8NMvzbJ'') # a_attrs2) kids2]"
    using h2 by simp
  have e2: "err2 = Null" using n2 by blast
  have "TransactionLink ?p ?s (js ''Failed'') (Some (js ''5VERv8NMvzbJ'')) None
      = Inr (Element ''div'' attrs2
               [renderStatus (js ''Failed''), Text (js '' ''),
                Element ''span'' span_attrs2
                  [Element ''a''
                     ((''href'', js ''https://solscan.io/tx/5VERv8NMvzbJ'') # a_attrs2) kids2],
                Null])"
    using r2 l2' e2 by (simp only:)
  then have 4: "\<exists>attrs span_attrs a_attrs kids.
      TransactionLink ?p ?s (js ''Failed'') (Some (js ''5VERv8NMvzbJ'')) None
      = Inr (Element ''div'' attrs
               [renderStatus (js ''Failed''), Text (js '' ''),
                Element ''span'' span_attrs
                  [Element ''a''
                     ((''href'', js ''https://solscan.io/tx/5VERv8NMvzbJ'') # a_attrs) kids],
                Null])"
    by blast
  from t3 obtain attrs3 link3 err3 where
    r3: "TransactionLink ?p ?s (js ''Unknown'') None (Some [])
        = Inr (Element ''div'' attrs3 [renderStatus (js ''Unknown''), Text (js '' ''), link3, err3])"
    and n3: "(None :: js_string option) = None \<longrightarrow> link3 = Null"
    and m3: "Some ([] :: js_string) = Some [] \<longrightarrow> err3 = Text []"
    by (elim conjE exE)
  have "link3 = Null" "err3 = Text []" using n3 m3 by blast+
  then have "TransactionLink ?p ?s (js ''Unknown'') None (Some [])
        = Inr (Element ''div'' attrs3 [Undefined, Text (js '' ''), Null, Text []])"
    using r3 1 by (simp only:)
  then have 5: "\<exists>attrs. TransactionLink ?p ?s (js ''Unknown'') None (Some [])
        = Inr (Element ''div'' attrs [Undefined, Text (js '' ''), Null, Text []])"
    by blast
  show ?thesis using 1 2 3 4 5 by (intro conjI)
qed

text \<open>
  Counterexample to C10 as stated: the hash and the error are the empty string, which is
  not \<open>null\<close>, and neither a link nor a formatted error is rendered.
\<close>

theorem TransactionLink_empty_counterexample:
  "Some ([] :: js_string) \<noteq> None \<and>
   TransactionLink (\<lambda>text. Inl SyntaxError) (\<lambda>v. Inl TypeError) (js ''Unknown'') (Some []) (Some [])
     = Inr (Element ''div''
              [(''className'',
                js ''text-xs sm:text-sm text-gray-400 flex flex-wrap items-center gap-2 mt-2'')]
              [Undefined, Text (js '' ''), Text [], Text []])"
  by (simp add: TransactionLink_def and_then_def js_def)

section \<open>Properties of the manifest\<close>





























section \<open>Properties of the pipeline\<close>

subsection \<open>The ordering invariant\<close>

lemma ingest_stale:
  assumes "decode u = Inr ev" "last_applied st (entity_key ev) = Some p" "position_of ev \<le> p"
  shows "ingest decode st u = (st, [])"
proof -
  have "\<not> p < position_of ev" using assms(3) by (simp add: not_less)
  then have "\<not> fresh st ev" using assms(2) by (simp add: fresh_def)
  then show ?thesis using assms(1) by (simp add: ingest_def)
qed

lemma ingest_cases:
  "ingest decode st u = (st, []) \<and> (\<forall>ev. decode u = Inr ev \<longrightarrow> \<not> fresh st ev) \<or>
   (\<exists>ev. decode u = Inr ev \<and> fresh st ev \<and>
      ingest decode st u
        = (st\<lparr>last_applied := (last_applied st)(entity_key ev \<mapsto> position_of ev)\<rparr>, [ev]))"
  by (cases "decode u") (simp_all add: ingest_def)

lemma ingest_emits: "snd (ingest decode st u) = [ev] \<longleftrightarrow> decode u = Inr ev \<and> fresh st ev"
  by (cases "decode u") (auto simp: ingest_def)

lemma ingest_silent: "snd (ingest decode st u) = [] \<Longrightarrow> fst (ingest decode st u) = st"
  by (cases "decode u") (auto simp: ingest_def split: if_splits)

lemma fresh_iff:
  "fresh st ev \<longleftrightarrow> (\<forall>q. last_applied st (entity_key ev) = Some q \<longrightarrow> q < position_of ev)"
  by (cases "last_applied st (entity_key ev)") (simp_all add: fresh_def)

lemma commit_Nil: "commit st [] = st"
  by (simp add: commit_def write_batch_def update_cache_def advance_def)

lemma commit_single:
  "commit st [ev]
     = st\<lparr>store := submit ev (store st),
          cache := (cache st)(entity_key ev \<mapsto>
                     \<lparr>latest_state_snapshot = ev, updated_at_slot = ev_slot ev\<rparr>),
          checkpoint := max (checkpoint st) (position_of ev)\<rparr>"
  by (simp add: commit_def write_batch_def update_cache_def advance_def)

lemma ingest_all_append:
  "ingest_all decode st (xs @ ys)
     = (case ingest_all decode st xs of
          (st1, evs1) \<Rightarrow>
            (case ingest_all decode st1 ys of (st2, evs2) \<Rightarrow> (st2, evs1 @ evs2)))"
proof (induction xs arbitrary: st)
  case Nil
  then show ?case by (simp split: prod.splits)
next
  case (Cons x xs)
  then show ?case by (simp split: prod.splits)
qed

lemma ingest_all_drop_stale:
  assumes "ingest decode (fst (ingest_all decode st before)) u
             = (fst (ingest_all decode st before), [])"
  shows "ingest_all decode st (before @ u # after) = ingest_all decode st (before @ after)"
proof -
  obtain st1 evs1 where b: "ingest_all decode st before = (st1, evs1)"
    by (cases "ingest_all decode st before")
  then have "ingest decode st1 u = (st1, [])" using assms by simp
  then show ?thesis by (simp add: ingest_all_append b split: prod.splits)
qed

lemma ingest_all_subseq:
  "subseq (map Inr (snd (ingest_all decode st us))) (map decode us)"
proof (induction us arbitrary: st)
  case Nil
  then show ?case by simp
next
  case (Cons u us)
  from ingest_cases[of decode st u] show ?case
  proof
    assume a: "ingest decode st u = (st, []) \<and> (\<forall>ev. decode u = Inr ev \<longrightarrow> \<not> fresh st ev)"
    then have g: "snd (ingest_all decode st (u # us)) = snd (ingest_all decode st us)"
      by (simp split: prod.splits)
    show ?thesis unfolding g list.map by (rule list_emb_Cons) (rule Cons.IH)
  next
    assume "\<exists>ev. decode u = Inr ev \<and> fresh st ev \<and>
      ingest decode st u
        = (st\<lparr>last_applied := (last_applied st)(entity_key ev \<mapsto> position_of ev)\<rparr>, [ev])"
    then obtain ev where ev: "decode u = Inr ev"
      "ingest decode st u
        = (st\<lparr>last_applied := (last_applied st)(entity_key ev \<mapsto> position_of ev)\<rparr>, [ev])"
      by blast
    let ?st1 = "st\<lparr>last_applied := (last_applied st)(entity_key ev \<mapsto> position_of ev)\<rparr>"
    have "snd (ingest_all decode st (u # us)) = ev # snd (ingest_all decode ?st1 us)"
      using ev(2) by (simp split: prod.splits)
    then show ?thesis using Cons.IH[of ?st1] ev(1) by simp
  qed
qed

lemma ingest_all_above:
  "e \<in> set (snd (ingest_all decode st us)) \<Longrightarrow> last_applied st (entity_key e) = Some q
     \<Longrightarrow> q < position_of e"
proof (induction us arbitrary: st q)
  case Nil
  then show ?case by simp
next
  case (Cons u us)
  from ingest_cases[of decode st u] show ?case
  proof
    assume a: "ingest decode st u = (st, []) \<and> (\<forall>ev. decode u = Inr ev \<longrightarrow> \<not> fresh st ev)"
    then have "snd (ingest_all decode st (u # us)) = snd (ingest_all decode st us)"
      by (simp split: prod.splits)
    then show ?thesis using Cons.IH[of st q] Cons.prems by simp
  next
    assume "\<exists>ev. decode u = Inr ev \<and> fresh st ev \<and>
      ingest decode st u
        = (st\<lparr>last_applied := (last_applied st)(entity_key ev \<mapsto> position_of ev)\<rparr>, [ev])"
    then obtain ev where ev: "fresh st ev"
      "ingest decode st u
        = (st\<lparr>last_applied := (last_applied st)(entity_key ev \<mapsto> position_of ev)\<rparr>, [ev])"
      by blast
    let ?st1 = "st\<lparr>last_applied := (last_applied st)(entity_key ev \<mapsto> position_of ev)\<rparr>"
    have s: "snd (ingest_all decode st (u # us)) = ev # snd (ingest_all decode ?st1 us)"
      using ev(2) by (simp split: prod.splits)
    show ?thesis
    proof (cases "e = ev")
      case True
      then show ?thesis using ev(1) Cons.prems(2) by (simp add: fresh_def)
    next
      case False
      then have m: "e \<in> set (snd (ingest_all decode ?st1 us))" using Cons.prems(1) s by simp
      show ?thesis
      proof (cases "entity_key e = entity_key ev")
        case True
        then have "last_applied ?st1 (entity_key e) = Some (position_of ev)" by simp
        from Cons.IH[OF m this] have "position_of ev < position_of e" .
        moreover have "q < position_of ev"
          using ev(1) Cons.prems(2) True by (simp add: fresh_def)
        ultimately show ?thesis by (rule less_trans[rotated])
      next
        case False
        then have "last_applied ?st1 (entity_key e) = Some q" using Cons.prems(2) by simp
        from Cons.IH[OF m this] show ?thesis .
      qed
    qed
  qed
qed

lemma ingest_all_sorted:
  "sorted_wrt (<) (map position_of
     (filter (\<lambda>e. entity_key e = k) (snd (ingest_all decode st us))))"
proof (induction us arbitrary: st)
  case Nil
  then show ?case by simp
next
  case (Cons u us)
  from ingest_cases[of decode st u] show ?case
  proof
    assume a: "ingest decode st u = (st, []) \<and> (\<forall>ev. decode u = Inr ev \<longrightarrow> \<not> fresh st ev)"
    then have "snd (ingest_all decode st (u # us)) = snd (ingest_all decode st us)"
      by (simp split: prod.splits)
    then show ?thesis using Cons.IH[of st] by simp
  next
    assume "\<exists>ev. decode u = Inr ev \<and> fresh st ev \<and>
      ingest decode st u
        = (st\<lparr>last_applied := (last_applied st)(entity_key ev \<mapsto> position_of ev)\<rparr>, [ev])"
    then obtain ev where ev:
      "ingest decode st u
        = (st\<lparr>last_applied := (last_applied st)(entity_key ev \<mapsto> position_of ev)\<rparr>, [ev])"
      by blast
    let ?st1 = "st\<lparr>last_applied := (last_applied st)(entity_key ev \<mapsto> position_of ev)\<rparr>"
    have s: "snd (ingest_all decode st (u # us)) = ev # snd (ingest_all decode ?st1 us)"
      using ev by (simp split: prod.splits)
    show ?thesis
    proof (cases "entity_key ev = k")
      case False
      then show ?thesis using s Cons.IH[of ?st1] by simp
    next
      case True
      have "position_of ev < position_of e"
        if "e \<in> set (snd (ingest_all decode ?st1 us))" "entity_key e = k" for e
      proof -
        have "last_applied ?st1 (entity_key e) = Some (position_of ev)"
          using True that(2) by simp
        with that(1) show ?thesis by (rule ingest_all_above)
      qed
      then show ?thesis using s True Cons.IH[of ?st1] by auto
    qed
  qed
qed

lemma ingest_all_last_applied:
  "last_applied (fst (ingest_all decode st us)) k
     = (if filter (\<lambda>e. entity_key e = k) (snd (ingest_all decode st us)) = []
        then last_applied st k
        else Some (position_of
                (last (filter (\<lambda>e. entity_key e = k) (snd (ingest_all decode st us))))))"
proof (induction us arbitrary: st)
  case Nil
  then show ?case by simp
next
  case (Cons u us)
  from ingest_cases[of decode st u] show ?case
  proof
    assume a: "ingest decode st u = (st, []) \<and> (\<forall>ev. decode u = Inr ev \<longrightarrow> \<not> fresh st ev)"
    then have "ingest_all decode st (u # us) = ingest_all decode st us"
      by (simp split: prod.splits)
    then show ?thesis using Cons.IH[of st] by simp
  next
    assume "\<exists>ev. decode u = Inr ev \<and> fresh st ev \<and>
      ingest decode st u
        = (st\<lparr>last_applied := (last_applied st)(entity_key ev \<mapsto> position_of ev)\<rparr>, [ev])"
    then obtain ev where ev:
      "ingest decode st u
        = (st\<lparr>last_applied := (last_applied st)(entity_key ev \<mapsto> position_of ev)\<rparr>, [ev])"
      by blast
    let ?st1 = "st\<lparr>last_applied := (last_applied st)(entity_key ev \<mapsto> position_of ev)\<rparr>"
    have s: "snd (ingest_all decode st (u # us)) = ev # snd (ingest_all decode ?st1 us)"
      "fst (ingest_all decode st (u # us)) = fst (ingest_all decode ?st1 us)"
      using ev by (simp_all split: prod.splits)
    show ?thesis
      unfolding s using Cons.IH[of ?st1] by simp
  qed
qed

lemma process_batch_single:
  "process_batch decode st [u] = commit (fst (ingest decode st u)) (snd (ingest decode st u))"
  by (simp add: process_batch_def split: prod.splits)

lemma ingest_at_most_one: "length (snd (ingest decode st u)) \<le> 1"
  using ingest_cases[of decode st u] by auto


text \<open>
  Claim C1. For an update that decodes to an event \<open>ev\<close>, with \<open>entity_key ev\<close> its key and
  \<open>(ev_slot ev, ev_seq ev)\<close> its position:

  \<^item> if the position is at or below the last one applied for the key, the update is a
    no-op: no event is emitted, and the state after the batch is committed is the state
    before, cache and checkpoint included; so it is for a raw account update whose slot
    and write version the decoder carries into the event, and for a late update in the
    middle of a batch, which can be removed from the stream without any difference;
  \<^item> an update emits its event exactly when the event's position is strictly greater than
    the last one applied for the key (or nothing was applied for it), and never more than
    one event; an update that emits nothing changes nothing; one that emits makes the
    event's position the last applied of its key, and the commit writes the event to the
    store, to the cache entry of its key and into the checkpoint;
  \<^item> updates are never reordered: the events emitted for a stream are the decoded images
    of a subsequence of the stream, in arrival order; for every entity key the positions
    of the emitted events of that key increase strictly, they are all above the position
    last applied for the key before the stream, and the position last applied after the
    stream is that of the last event emitted for the key.
\<close>

theorem ingest_ordering:
  "(decode u = Inr ev \<and> last_applied st (entity_key ev) = Some p \<and>
    (ev_slot ev, ev_seq ev) \<le> p \<longrightarrow>
      ingest decode st u = (st, []) \<and>
      process_batch decode st [u] = st \<and>
      cache (process_batch decode st [u]) = cache st \<and>
      checkpoint (process_batch decode st [u]) = checkpoint st) \<and>
   (decode (AccountUpdate a) = Inr ev \<and> ev_slot ev = slot a \<and> ev_seq ev = write_version a \<and>
    last_applied st (entity_key ev) = Some p \<and> (slot a, write_version a) \<le> p \<longrightarrow>
      ingest decode st (AccountUpdate a) = (st, []) \<and>
      process_batch decode st [AccountUpdate a] = st) \<and>
   (decode u = Inr ev \<and>
    last_applied (fst (ingest_all decode st before)) (entity_key ev) = Some p \<and>
    (ev_slot ev, ev_seq ev) \<le> p \<longrightarrow>
      ingest_all decode st (before @ u # after) = ingest_all decode st (before @ after) \<and>
      process_batch decode st (before @ u # after)
        = process_batch decode st (before @ after)) \<and>
   (snd (ingest decode st u) = [ev]) =
     (decode u = Inr ev \<and>
      (\<forall>q. last_applied st (entity_key ev) = Some q \<longrightarrow> q < (ev_slot ev, ev_seq ev))) \<and>
   length (snd (ingest decode st u)) \<le> 1 \<and>
   (snd (ingest decode st u) = [] \<longrightarrow> fst (ingest decode st u) = st) \<and>
   (snd (ingest decode st u) = [ev] \<longrightarrow>
      last_applied (fst (ingest decode st u))
        = (last_applied st)(entity_key ev \<mapsto> (ev_slot ev, ev_seq ev)) \<and>
      cache (process_batch decode st [u])
        = (cache st)(entity_key ev \<mapsto>
            \<lparr>latest_state_snapshot = ev, updated_at_slot = ev_slot ev\<rparr>) \<and>
      checkpoint (process_batch decode st [u]) = max (checkpoint st) (ev_slot ev, ev_seq ev) \<and>
      store (process_batch decode st [u]) = submit ev (store st)) \<and>
   subseq (map Inr (snd (ingest_all decode st us))) (map decode us) \<and>
   sorted_wrt (<)
     (map (\<lambda>e. (ev_slot e, ev_seq e))
        (filter (\<lambda>e. entity_key e = k) (snd (ingest_all decode st us)))) \<and>
   (\<forall>e \<in> set (snd (ingest_all decode st us)).
      \<forall>q. last_applied st (entity_key e) = Some q \<longrightarrow> q < (ev_slot e, ev_seq e)) \<and>
   last_applied (fst (ingest_all decode st us)) k
     = (if filter (\<lambda>e. entity_key e = k) (snd (ingest_all decode st us)) = []
        then last_applied st k
        else Some (let e = last (filter (\<lambda>e. entity_key e = k) (snd (ingest_all decode st us)))
                   in (ev_slot e, ev_seq e)))"
proof -
  have stale: "ingest decode st u = (st, []) \<and>
      process_batch decode st [u] = st \<and>
      cache (process_batch decode st [u]) = cache st \<and>
      checkpoint (process_batch decode st [u]) = checkpoint st"
    if "decode u = Inr ev \<and> last_applied st (entity_key ev) = Some p \<and>
        (ev_slot ev, ev_seq ev) \<le> p" for u st
  proof -
    from that have "ingest decode st u = (st, [])"
      by (intro ingest_stale[of decode u ev st p]) (simp_all add: position_of_def)
    then show ?thesis by (simp add: process_batch_single commit_Nil)
  qed
  have c1: "decode u = Inr ev \<and> last_applied st (entity_key ev) = Some p \<and>
    (ev_slot ev, ev_seq ev) \<le> p \<longrightarrow>
      ingest decode st u = (st, []) \<and>
      process_batch decode st [u] = st \<and>
      cache (process_batch decode st [u]) = cache st \<and>
      checkpoint (process_batch decode st [u]) = checkpoint st"
    using stale[of u st] by (rule impI)
  have c2: "decode (AccountUpdate a) = Inr ev \<and> ev_slot ev = slot a \<and>
    ev_seq ev = write_version a \<and>
    last_applied st (entity_key ev) = Some p \<and> (slot a, write_version a) \<le> p \<longrightarrow>
      ingest decode st (AccountUpdate a) = (st, []) \<and>
      process_batch decode st [AccountUpdate a] = st"
  proof
    assume h: "decode (AccountUpdate a) = Inr ev \<and> ev_slot ev = slot a \<and>
      ev_seq ev = write_version a \<and>
      last_applied st (entity_key ev) = Some p \<and> (slot a, write_version a) \<le> p"
    then have "decode (AccountUpdate a) = Inr ev \<and> last_applied st (entity_key ev) = Some p \<and>
        (ev_slot ev, ev_seq ev) \<le> p"
      by simp
    from stale[OF this] show "ingest decode st (AccountUpdate a) = (st, []) \<and>
      process_batch decode st [AccountUpdate a] = st"
      by simp
  qed
  have c3: "decode u = Inr ev \<and>
    last_applied (fst (ingest_all decode st before)) (entity_key ev) = Some p \<and>
    (ev_slot ev, ev_seq ev) \<le> p \<longrightarrow>
      ingest_all decode st (before @ u # after) = ingest_all decode st (before @ after) \<and>
      process_batch decode st (before @ u # after)
        = process_batch decode st (before @ after)"
  proof
    assume "decode u = Inr ev \<and>
      last_applied (fst (ingest_all decode st before)) (entity_key ev) = Some p \<and>
      (ev_slot ev, ev_seq ev) \<le> p"
    from stale[OF this] have "ingest decode (fst (ingest_all decode st before)) u
        = (fst (ingest_all decode st before), [])"
      by simp
    then have "ingest_all decode st (before @ u # after) = ingest_all decode st (before @ after)"
      by (rule ingest_all_drop_stale)
    then show "ingest_all decode st (before @ u # after) = ingest_all decode st (before @ after) \<and>
      process_batch decode st (before @ u # after)
        = process_batch decode st (before @ after)"
      by (simp add: process_batch_def)
  qed
  have c4: "(snd (ingest decode st u) = [ev]) =
     (decode u = Inr ev \<and>
      (\<forall>q. last_applied st (entity_key ev) = Some q \<longrightarrow> q < (ev_slot ev, ev_seq ev)))"
    unfolding ingest_emits fresh_iff position_of_def ..
  have c5: "length (snd (ingest decode st u)) \<le> 1" by (rule ingest_at_most_one)
  have c6: "snd (ingest decode st u) = [] \<longrightarrow> fst (ingest decode st u) = st"
    using ingest_silent[of decode st u] by (rule impI)
  have c7: "snd (ingest decode st u) = [ev] \<longrightarrow>
      last_applied (fst (ingest decode st u))
        = (last_applied st)(entity_key ev \<mapsto> (ev_slot ev, ev_seq ev)) \<and>
      cache (process_batch decode st [u])
        = (cache st)(entity_key ev \<mapsto>
            \<lparr>latest_state_snapshot = ev, updated_at_slot = ev_slot ev\<rparr>) \<and>
      checkpoint (process_batch decode st [u]) = max (checkpoint st) (ev_slot ev, ev_seq ev) \<and>
      store (process_batch decode st [u]) = submit ev (store st)"
  proof
    assume e: "snd (ingest decode st u) = [ev]"
    then have "decode u = Inr ev" "fresh st ev" by (simp_all add: ingest_emits)
    then have i: "ingest decode st u
        = (st\<lparr>last_applied := (last_applied st)(entity_key ev \<mapsto> position_of ev)\<rparr>, [ev])"
      by (simp add: ingest_def)
    show "last_applied (fst (ingest decode st u))
        = (last_applied st)(entity_key ev \<mapsto> (ev_slot ev, ev_seq ev)) \<and>
      cache (process_batch decode st [u])
        = (cache st)(entity_key ev \<mapsto>
            \<lparr>latest_state_snapshot = ev, updated_at_slot = ev_slot ev\<rparr>) \<and>
      checkpoint (process_batch decode st [u]) = max (checkpoint st) (ev_slot ev, ev_seq ev) \<and>
      store (process_batch decode st [u]) = submit ev (store st)"
      unfolding process_batch_single i by (simp add: commit_single position_of_def)
  qed
  have c8: "subseq (map Inr (snd (ingest_all decode st us))) (map decode us)"
    by (rule ingest_all_subseq)
  have "map (\<lambda>e. (ev_slot e, ev_seq e)) = map position_of"
    by (simp add: position_of_def fun_eq_iff)
  then have c9: "sorted_wrt (<)
     (map (\<lambda>e. (ev_slot e, ev_seq e))
        (filter (\<lambda>e. entity_key e = k) (snd (ingest_all decode st us))))"
    using ingest_all_sorted[of k decode st us] by simp
  have c10: "\<forall>e \<in> set (snd (ingest_all decode st us)).
      \<forall>q. last_applied st (entity_key e) = Some q \<longrightarrow> q < (ev_slot e, ev_seq e)"
    using ingest_all_above[of _ decode st us] by (simp add: position_of_def)
  have c11: "last_applied (fst (ingest_all decode st us)) k
     = (if filter (\<lambda>e. entity_key e = k) (snd (ingest_all decode st us)) = []
        then last_applied st k
        else Some (let e = last (filter (\<lambda>e. entity_key e = k) (snd (ingest_all decode st us)))
                   in (ev_slot e, ev_seq e)))"
    unfolding Let_def using ingest_all_last_applied[of decode st us k]
    by (simp add: position_of_def)
  show ?thesis
    by (intro conjI) (fact c1 c2 c3 c4 c5 c6 c7 c8 c9 c10 c11)+
qed

text \<open>
  Witness for C1: after an update of \<open>pool\<close> at slot 10, write version 2, an update of the
  same pool at slot 5 is discarded, alone and in the middle of a batch, and one at slot 11
  is applied and committed.
\<close>

theorem ingest_ordering_witness:
  "let d = (\<lambda>u. case u of
              AccountUpdate a \<Rightarrow>
                if raw_bytes a = [] then Inl Malformed
                else Inr \<lparr>protocol_tag = owning_program_id a, kind = Swap,
                          entity_key = account_address a, amounts = [],
                          ev_slot = slot a, ev_seq = write_version a,
                          source_signature = None\<rparr>
            | TransactionUpdate t \<Rightarrow> Inl Unrecognized);
       first = \<lparr>owning_program_id = ''amm'', account_address = ''pool'', slot = 10,
                write_version = 2, lamports = 0, raw_bytes = [1], is_startup = False\<rparr>;
       late = first\<lparr>slot := 5, write_version := 7\<rparr>;
       next = first\<lparr>slot := 11, write_version := 0\<rparr>;
       ev_late = \<lparr>protocol_tag = ''amm'', kind = Swap, entity_key = ''pool'', amounts = [],
                  ev_slot = 5, ev_seq = 7, source_signature = None\<rparr>;
       ev_next = \<lparr>protocol_tag = ''amm'', kind = Swap, entity_key = ''pool'', amounts = [],
                  ev_slot = 11, ev_seq = 0, source_signature = None\<rparr>;
       st1 = fst (ingest d initial (AccountUpdate first))
   in d (AccountUpdate late) = Inr ev_late \<and>
      last_applied st1 (entity_key ev_late) = Some (10, 2) \<and>
      (ev_slot ev_late, ev_seq ev_late) \<le> (10, 2) \<and>
      ingest d st1 (AccountUpdate late) = (st1, []) \<and>
      process_batch d st1 [AccountUpdate late] = st1 \<and>
      cache (process_batch d st1 [AccountUpdate late]) = cache st1 \<and>
      checkpoint (process_batch d st1 [AccountUpdate late]) = checkpoint st1 \<and>
      fst (ingest d st1 (AccountUpdate late)) = st1 \<and>
      process_batch d initial [AccountUpdate first, AccountUpdate late, AccountUpdate next]
        = process_batch d initial [AccountUpdate first, AccountUpdate next] \<and>
      snd (ingest d st1 (AccountUpdate next)) = [ev_next] \<and>
      last_applied (fst (ingest d st1 (AccountUpdate next))) ''pool'' = Some (11, 0) \<and>
      cache (process_batch d st1 [AccountUpdate next]) ''pool''
        = Some \<lparr>latest_state_snapshot = ev_next, updated_at_slot = 11\<rparr> \<and>
      checkpoint (process_batch d st1 [AccountUpdate next]) = (11, 0) \<and>
      ev_next \<in> set (snd (ingest_all d st1 [AccountUpdate late, AccountUpdate next])) \<and>
      (10, 2) < (ev_slot ev_next, ev_seq ev_next)"
proof -
  define d :: decoder where "d = (\<lambda>u. case u of
              AccountUpdate a \<Rightarrow>
                if raw_bytes a = [] then Inl Malformed
                else Inr \<lparr>protocol_tag = owning_program_id a, kind = Swap,
                          entity_key = account_address a, amounts = [],
                          ev_slot = slot a, ev_seq = write_version a,
                          source_signature = None\<rparr>
            | TransactionUpdate t \<Rightarrow> Inl Unrecognized)"
  define first :: raw_account_update where
    "first = \<lparr>owning_program_id = ''amm'', account_address = ''pool'', slot = 10,
                write_version = 2, lamports = 0, raw_bytes = [1], is_startup = False\<rparr>"
  define late where "late = first\<lparr>slot := 5, write_version := 7\<rparr>"
  define nxt where "nxt = first\<lparr>slot := 11, write_version := 0\<rparr>"
  define ev_late :: decoded_event where
    "ev_late = \<lparr>protocol_tag = ''amm'', kind = Swap, entity_key = ''pool'', amounts = [],
                  ev_slot = 5, ev_seq = 7, source_signature = None\<rparr>"
  define ev_next :: decoded_event where
    "ev_next = \<lparr>protocol_tag = ''amm'', kind = Swap, entity_key = ''pool'', amounts = [],
                  ev_slot = 11, ev_seq = 0, source_signature = None\<rparr>"
  define st1 where "st1 = fst (ingest d initial (AccountUpdate first))"
  note defs = d_def first_def late_def nxt_def ev_late_def ev_next_def
  have st1: "st1 = initial\<lparr>last_applied := [''pool'' \<mapsto> (10, 2)]\<rparr>"
    by (simp add: st1_def defs ingest_def fresh_def initial_def position_of_def)
  have h1: "d (AccountUpdate late) = Inr ev_late" by (simp add: defs)
  have h2: "last_applied st1 (entity_key ev_late) = Some (10, 2)" by (simp add: st1 defs)
  have h3: "(ev_slot ev_late, ev_seq ev_late) \<le> ((10, 2) :: position)" by (simp add: defs)
  have h4: "ev_slot ev_late = slot late \<and> ev_seq ev_late = write_version late"
    by (simp add: defs)
  have h5: "(slot late, write_version late) \<le> ((10, 2) :: position)" by (simp add: defs)
  note t1 = ingest_ordering [where decode = d and st = st1 and u = "AccountUpdate late"
      and ev = ev_late and p = "(10, 2)" and a = late and before = "[]" and after = "[]"
      and us = "[AccountUpdate late, AccountUpdate nxt]" and k = "''pool''"]
  note t2 = ingest_ordering [where decode = d and st = initial and u = "AccountUpdate late"
      and ev = ev_late and p = "(10, 2)" and a = late and before = "[AccountUpdate first]"
      and after = "[AccountUpdate nxt]"
      and us = "[AccountUpdate first, AccountUpdate late, AccountUpdate nxt]"
      and k = "''pool''"]
  note t3 = ingest_ordering [where decode = d and st = st1 and u = "AccountUpdate nxt"
      and ev = ev_next and p = "(10, 2)" and a = nxt and before = "[]" and after = "[]"
      and us = "[]" and k = "''pool''"]
  have w1: "ingest d st1 (AccountUpdate late) = (st1, []) \<and>
      process_batch d st1 [AccountUpdate late] = st1 \<and>
      cache (process_batch d st1 [AccountUpdate late]) = cache st1 \<and>
      checkpoint (process_batch d st1 [AccountUpdate late]) = checkpoint st1"
    using t1[THEN conjunct1] h1 h2 h3 by blast
  have w2: "ingest d st1 (AccountUpdate late) = (st1, []) \<and>
      process_batch d st1 [AccountUpdate late] = st1"
    using t1[THEN conjunct2, THEN conjunct1] h1 h2 h4 h5 by blast
  have "snd (ingest d st1 (AccountUpdate late)) = []" using w2 by simp
  then have w3: "fst (ingest d st1 (AccountUpdate late)) = st1"
    using t1[THEN conjunct2, THEN conjunct2, THEN conjunct2, THEN conjunct2, THEN conjunct2,
        THEN conjunct1]
    by blast
  have "fst (ingest_all d initial [AccountUpdate first]) = st1"
    by (simp add: st1_def split: prod.splits)
  then have h6: "last_applied (fst (ingest_all d initial [AccountUpdate first]))
      (entity_key ev_late) = Some (10, 2)"
    using h2 by simp
  have "process_batch d initial ([AccountUpdate first] @ AccountUpdate late # [AccountUpdate nxt])
      = process_batch d initial ([AccountUpdate first] @ [AccountUpdate nxt])"
    using t2[THEN conjunct2, THEN conjunct2, THEN conjunct1] h1 h6 h3 by blast
  then have w4: "process_batch d initial
        [AccountUpdate first, AccountUpdate late, AccountUpdate nxt]
      = process_batch d initial [AccountUpdate first, AccountUpdate nxt]"
    by simp
  have n1: "d (AccountUpdate nxt) = Inr ev_next" by (simp add: defs)
  have n2: "\<forall>q. last_applied st1 (entity_key ev_next) = Some q
      \<longrightarrow> q < (ev_slot ev_next, ev_seq ev_next)"
    by (simp add: st1 defs)
  have w5: "snd (ingest d st1 (AccountUpdate nxt)) = [ev_next]"
    using t3[THEN conjunct2, THEN conjunct2, THEN conjunct2, THEN conjunct1] n1 n2 by blast
  have w6: "last_applied (fst (ingest d st1 (AccountUpdate nxt)))
        = (last_applied st1)(entity_key ev_next \<mapsto> (ev_slot ev_next, ev_seq ev_next)) \<and>
      cache (process_batch d st1 [AccountUpdate nxt])
        = (cache st1)(entity_key ev_next \<mapsto>
            \<lparr>latest_state_snapshot = ev_next, updated_at_slot = ev_slot ev_next\<rparr>) \<and>
      checkpoint (process_batch d st1 [AccountUpdate nxt])
        = max (checkpoint st1) (ev_slot ev_next, ev_seq ev_next) \<and>
      store (process_batch d st1 [AccountUpdate nxt]) = submit ev_next (store st1)"
    using t3[THEN conjunct2, THEN conjunct2, THEN conjunct2, THEN conjunct2, THEN conjunct2,
        THEN conjunct2, THEN conjunct1] w5
    by blast
  have k: "entity_key ev_next = ''pool''" "ev_slot ev_next = 11" "ev_seq ev_next = 0"
    by (simp_all add: defs)
  have cp: "checkpoint st1 = (0, 0)" by (simp add: st1 initial_def)
  have w7: "last_applied (fst (ingest d st1 (AccountUpdate nxt))) ''pool'' = Some (11, 0)"
    using w6 by (simp add: k)
  have w8: "cache (process_batch d st1 [AccountUpdate nxt]) ''pool''
        = Some \<lparr>latest_state_snapshot = ev_next, updated_at_slot = 11\<rparr>"
    using w6 by (simp add: k)
  have w9: "checkpoint (process_batch d st1 [AccountUpdate nxt]) = (11, 0)"
    using w6 by (simp add: k cp max_def)
  have m: "ev_next \<in> set (snd (ingest_all d st1 [AccountUpdate late, AccountUpdate nxt]))"
    using w1 w5 by (simp split: prod.splits)
  have "\<forall>e \<in> set (snd (ingest_all d st1 [AccountUpdate late, AccountUpdate nxt])).
      \<forall>q. last_applied st1 (entity_key e) = Some q \<longrightarrow> q < (ev_slot e, ev_seq e)"
    using t1[THEN conjunct2, THEN conjunct2, THEN conjunct2, THEN conjunct2, THEN conjunct2,
        THEN conjunct2, THEN conjunct2, THEN conjunct2, THEN conjunct2, THEN conjunct1] .
  then have "\<forall>q. last_applied st1 (entity_key ev_next) = Some q
      \<longrightarrow> q < (ev_slot ev_next, ev_seq ev_next)"
    using m by (rule bspec)
  moreover have "last_applied st1 (entity_key ev_next) = Some (10, 2)" by (simp add: st1 defs)
  ultimately have w10: "(10, 2) < (ev_slot ev_next, ev_seq ev_next)" by blast
  have all: "d (AccountUpdate late) = Inr ev_late \<and>
      last_applied st1 (entity_key ev_late) = Some (10, 2) \<and>
      (ev_slot ev_late, ev_seq ev_late) \<le> (10, 2) \<and>
      ingest d st1 (AccountUpdate late) = (st1, []) \<and>
      process_batch d st1 [AccountUpdate late] = st1 \<and>
      cache (process_batch d st1 [AccountUpdate late]) = cache st1 \<and>
      checkpoint (process_batch d st1 [AccountUpdate late]) = checkpoint st1 \<and>
      fst (ingest d st1 (AccountUpdate late)) = st1 \<and>
      process_batch d initial [AccountUpdate first, AccountUpdate late, AccountUpdate nxt]
        = process_batch d initial [AccountUpdate first, AccountUpdate nxt] \<and>
      snd (ingest d st1 (AccountUpdate nxt)) = [ev_next] \<and>
      last_applied (fst (ingest d st1 (AccountUpdate nxt))) ''pool'' = Some (11, 0) \<and>
      cache (process_batch d st1 [AccountUpdate nxt]) ''pool''
        = Some \<lparr>latest_state_snapshot = ev_next, updated_at_slot = 11\<rparr> \<and>
      checkpoint (process_batch d st1 [AccountUpdate nxt]) = (11, 0) \<and>
      ev_next \<in> set (snd (ingest_all d st1 [AccountUpdate late, AccountUpdate nxt])) \<and>
      (10, 2) < (ev_slot ev_next, ev_seq ev_next)"
    using h1 h2 h3 w1 w3 w4 w5 w7 w8 w9 m w10 by blast
  show ?thesis
    unfolding Let_def
    using all[unfolded st1_def, unfolded defs] .
qed

subsection \<open>The durable store\<close>

lemma upsert_keys: "fst ` set (upsert row rows) = insert (fst row) (fst ` set rows)"
  by (induction rows) auto

lemma upsert_distinct: "distinct (map fst rows) \<Longrightarrow> distinct (map fst (upsert row rows))"
proof (induction rows)
  case Nil
  then show ?case by simp
next
  case (Cons r rows)
  show ?case
  proof (cases "fst r = fst row")
    case True
    then show ?thesis using Cons.prems by simp
  next
    case False
    have "fst r \<notin> fst ` set (upsert row rows)"
      using False Cons.prems by (simp add: upsert_keys)
    then show ?thesis using False Cons by simp
  qed
qed

lemma upsert_idem: "upsert row (upsert row rows) = upsert row rows"
  by (induction rows) auto

lemma upsert_rows_of_key:
  "distinct (map fst rows) \<Longrightarrow> filter (\<lambda>r. fst r = fst row) (upsert row rows) = [row]"
proof (induction rows)
  case Nil
  then show ?case by simp
next
  case (Cons r rows)
  show ?case
  proof (cases "fst r = fst row")
    case True
    then have "fst row \<notin> fst ` set rows" using Cons.prems by auto
    then have "\<forall>x \<in> set rows. fst x \<noteq> fst row"
      by (metis image_eqI)
    then have "filter (\<lambda>r. fst r = fst row) rows = []"
      by (simp add: filter_empty_conv)
    then show ?thesis using True by simp
  next
    case False
    then show ?thesis using Cons by simp
  qed
qed

lemma write_batch_distinct:
  "distinct (map fst rows) \<Longrightarrow> distinct (map fst (write_batch rows batch))"
  unfolding write_batch_def
  by (induction batch arbitrary: rows) (simp_all add: submit_def upsert_distinct)

lemma write_batch_keys:
  "fst ` set (write_batch rows batch) = fst ` set rows \<union> idempotency_key_of ` set batch"
  unfolding write_batch_def
  by (induction batch arbitrary: rows) (auto simp: submit_def upsert_keys)

text \<open>
  Claim C3. Whatever was written to the durable store before, after the same event is
  submitted twice there is exactly one row under its idempotency key, the row of that
  event; the second submission changes nothing, and no key has two rows.
\<close>

theorem submit_twice_one_row:
  "filter (\<lambda>row. fst row = idempotency_key_of ev)
      (submit ev (submit ev (write_batch [] history))) = [(idempotency_key_of ev, ev)] \<and>
   submit ev (submit ev (write_batch [] history)) = submit ev (write_batch [] history) \<and>
   distinct (map fst (submit ev (submit ev (write_batch [] history))))"
proof -
  have d: "distinct (map fst (write_batch [] history))"
    by (rule write_batch_distinct) simp
  have i: "submit ev (submit ev (write_batch [] history)) = submit ev (write_batch [] history)"
    by (simp add: submit_def upsert_idem)
  have "filter (\<lambda>row. fst row = fst (idempotency_key_of ev, ev))
      (upsert (idempotency_key_of ev, ev) (write_batch [] history)) = [(idempotency_key_of ev, ev)]"
    using d by (rule upsert_rows_of_key)
  then have one: "filter (\<lambda>row. fst row = idempotency_key_of ev)
      (submit ev (write_batch [] history)) = [(idempotency_key_of ev, ev)]"
    by (simp add: submit_def)
  have "distinct (map fst (submit ev (write_batch [] history)))"
    using d by (simp add: submit_def upsert_distinct)
  then show ?thesis using i one by simp
qed

text \<open>
  Witness for C3: a swap submitted twice to a store that holds it already, next to an
  event derived from a transaction.
\<close>

theorem submit_twice_one_row_witness:
  "let swap = \<lparr>protocol_tag = ''amm'', kind = Swap, entity_key = ''pool'', amounts = [5, -7],
               ev_slot = 10, ev_seq = 3, source_signature = None\<rparr>;
       other = \<lparr>protocol_tag = ''amm'', kind = Initialize, entity_key = ''pool'', amounts = [],
                ev_slot = 9, ev_seq = 0, source_signature = Some ''sig''\<rparr>
   in filter (\<lambda>row. fst row = AccountKey ''pool'' 10 3)
        (submit swap (submit swap (write_batch [] [other, swap])))
        = [(AccountKey ''pool'' 10 3, swap)] \<and>
      length (submit swap (submit swap (write_batch [] [other, swap]))) = 2"
proof -
  let ?swap = "\<lparr>protocol_tag = ''amm'', kind = Swap, entity_key = ''pool'', amounts = [5, -7],
               ev_slot = 10, ev_seq = 3, source_signature = None\<rparr>"
  let ?other = "\<lparr>protocol_tag = ''amm'', kind = Initialize, entity_key = ''pool'', amounts = [],
                ev_slot = 9, ev_seq = 0, source_signature = Some ''sig''\<rparr>"
  have k: "idempotency_key_of ?swap = AccountKey ''pool'' 10 3"
    by (simp add: idempotency_key_of_def)
  have l: "length (submit ?swap (write_batch [] [?other, ?swap])) = 2"
    by (simp add: write_batch_def submit_def idempotency_key_of_def)
  note t = submit_twice_one_row [of ?swap "[?other, ?swap]"]
  from t have same: "submit ?swap (submit ?swap (write_batch [] [?other, ?swap]))
      = submit ?swap (write_batch [] [?other, ?swap])"
    by (elim conjE)
  from t have "filter (\<lambda>row. fst row = idempotency_key_of ?swap)
      (submit ?swap (submit ?swap (write_batch [] [?other, ?swap])))
      = [(idempotency_key_of ?swap, ?swap)]"
    by (elim conjE)
  then have one: "filter (\<lambda>row. fst row = AccountKey ''pool'' 10 3)
      (submit ?swap (submit ?swap (write_batch [] [?other, ?swap])))
      = [(AccountKey ''pool'' 10 3, ?swap)]"
    unfolding k .
  have "length (submit ?swap (submit ?swap (write_batch [] [?other, ?swap]))) = 2"
    unfolding same by (rule l)
  with one show ?thesis
    unfolding Let_def by (intro conjI)
qed

end
